theory Spec2Isabelle
  imports Complex_Main "HOL-Library.Sublist" "HOL-Library.Product_Lexorder" "HOL-Library.AList"
begin

section \<open>Python strings\<close>

text \<open>
  The cannibalization engine works on Python \<open>str\<close> values. They are embedded as
  \<^typ>\<open>string\<close>, each \<^typ>\<open>char\<close> read as the code point of the same number
  (0 to 255). The character classes below are the ones of CPython on these code points:
  \<open>str.isspace\<close>, \<open>str.lower\<close>, \<open>str.isdigit\<close> and the word characters of
  the \<open>re\<close> module.
\<close>

definition code :: "char \<Rightarrow> nat" where
  "code c = of_char c"

definition py_isspace :: "char \<Rightarrow> bool" where
  "py_isspace c = (let n = code c in
     (9 \<le> n \<and> n \<le> 13) \<or> (28 \<le> n \<and> n \<le> 32) \<or> n = 133 \<or> n = 160)"

definition ascii_upper :: "char \<Rightarrow> bool" where
  "ascii_upper c = (let n = code c in 65 \<le> n \<and> n \<le> 90)"

definition ascii_lower :: "char \<Rightarrow> bool" where
  "ascii_lower c = (let n = code c in 97 \<le> n \<and> n \<le> 122)"

definition ascii_digit :: "char \<Rightarrow> bool" where
  "ascii_digit c = (let n = code c in 48 \<le> n \<and> n \<le> 57)"

definition ascii_alpha :: "char \<Rightarrow> bool" where
  "ascii_alpha c = (ascii_upper c \<or> ascii_lower c)"

text \<open>\<open>str.lower\<close> on one character: A-Z and the capital letters of Latin-1.\<close>

definition lower_char :: "char \<Rightarrow> char" where
  "lower_char c = (let n = code c in
     if (65 \<le> n \<and> n \<le> 90) \<or> (192 \<le> n \<and> n \<le> 222 \<and> n \<noteq> 215)
     then char_of (n + 32) else c)"

definition py_lower :: "string \<Rightarrow> string" where
  "py_lower s = map lower_char s"

text \<open>\<open>c.isdigit()\<close>: the decimal digits and the superscripts two, three, one.\<close>

definition digit_char :: "char \<Rightarrow> bool" where
  "digit_char c = (let n = code c in (48 \<le> n \<and> n \<le> 57) \<or> n = 178 \<or> n = 179 \<or> n = 185)"

definition py_isdigit :: "string \<Rightarrow> bool" where
  "py_isdigit s = (s \<noteq> [] \<and> list_all digit_char s)"

text \<open>\<open>s.lstrip(chars)\<close>, \<open>s.rstrip(chars)\<close>, \<open>s.strip(chars)\<close> for a class of characters.\<close>

definition lstrip_where :: "(char \<Rightarrow> bool) \<Rightarrow> string \<Rightarrow> string" where
  "lstrip_where P s = dropWhile P s"

definition rstrip_where :: "(char \<Rightarrow> bool) \<Rightarrow> string \<Rightarrow> string" where
  "rstrip_where P s = rev (dropWhile P (rev s))"

definition strip_where :: "(char \<Rightarrow> bool) \<Rightarrow> string \<Rightarrow> string" where
  "strip_where P s = rstrip_where P (lstrip_where P s)"

definition py_strip :: "string \<Rightarrow> string" where
  "py_strip s = strip_where py_isspace s"

definition rstrip_char :: "char \<Rightarrow> string \<Rightarrow> string" where
  "rstrip_char c s = rstrip_where (\<lambda>x. x = c) s"

definition strip_char :: "char \<Rightarrow> string \<Rightarrow> string" where
  "strip_char c s = strip_where (\<lambda>x. x = c) s"

text \<open>\<open>s.split(sep)\<close> for a class of one-character separators: every separator cuts,
  empty pieces are kept (as \<open>str.split('/')\<close> and \<open>re.split('[-_]', s)\<close> do).\<close>

fun split_where :: "(char \<Rightarrow> bool) \<Rightarrow> string \<Rightarrow> string list" where
  "split_where P [] = [[]]"
| "split_where P (c # cs) =
     (if P c then [] # split_where P cs
      else (case split_where P cs of
              [] \<Rightarrow> [[c]]
            | w # ws \<Rightarrow> (c # w) # ws))"

definition split_char :: "char \<Rightarrow> string \<Rightarrow> string list" where
  "split_char c s = split_where (\<lambda>x. x = c) s"

text \<open>\<open>s.split()\<close>: runs of whitespace separate, no empty piece is produced.\<close>

definition py_split_ws :: "string \<Rightarrow> string list" where
  "py_split_ws s = filter (\<lambda>w. w \<noteq> []) (split_where py_isspace s)"

text \<open>\<open>sep.join(parts)\<close> for a one-character separator.\<close>

fun join_char :: "char \<Rightarrow> string list \<Rightarrow> string" where
  "join_char c [] = []"
| "join_char c [w] = w"
| "join_char c (w # v # ws) = w @ c # join_char c (v # ws)"

text \<open>\<open>s.replace(pat, '')\<close>: the occurrences of \<open>pat\<close> are removed from left to right,
  without overlap.\<close>

fun replace_del :: "string \<Rightarrow> string \<Rightarrow> string" where
  "replace_del pat [] = []"
| "replace_del pat (c # cs) =
     (if pat \<noteq> [] \<and> prefix pat (c # cs)
      then replace_del pat (drop (length pat) (c # cs))
      else c # replace_del pat cs)"

text \<open>\<open>s.endswith(suffix)\<close> and \<open>sub in s\<close>.\<close>

definition endswith :: "string \<Rightarrow> string \<Rightarrow> bool" where
  "endswith s suf = suffix suf s"

fun contains :: "string \<Rightarrow> string \<Rightarrow> bool" where
  "contains sub [] = (sub = [])"
| "contains sub (c # cs) = (prefix sub (c # cs) \<or> contains sub cs)"

section \<open>urllib.parse.urlparse\<close>

text \<open>
  \<open>urlparse\<close> of CPython 3.11 on a \<open>str\<close>. It raises \<open>ValueError\<close> when the network
  location has an unmatched bracket or a bracketed host that the \<open>ipaddress\<close> module
  rejects; that last test is the parameter \<open>hostchk\<close> of the embedding. The NFKC test of
  the network location never fails on code points below 256.
\<close>

datatype py_error = ValueError

record parse_result =
  scheme :: string
  netloc :: string
  path :: string
  params :: string
  query :: string
  fragment :: string

definition c0_or_space :: "char \<Rightarrow> bool" where
  "c0_or_space c = (code c \<le> 32)"

definition unsafe_byte :: "char \<Rightarrow> bool" where
  "unsafe_byte c = (c = CHR 0x09 \<or> c = CHR 0x0D \<or> c = CHR 0x0A)"

definition scheme_char :: "char \<Rightarrow> bool" where
  "scheme_char c = (ascii_alpha c \<or> ascii_digit c \<or> c = CHR ''+'' \<or> c = CHR ''-'' \<or> c = CHR ''.'')"

definition uses_params :: "string list" where
  "uses_params = ['''', ''ftp'', ''hdl'', ''prospero'', ''http'', ''imap'',
     ''https'', ''shttp'', ''rtsp'', ''rtspu'', ''sip'', ''sips'',
     ''mms'', ''sftp'', ''tel'']"

text \<open>The scheme: \<open>url[:i]\<close> for the first colon at \<open>i > 0\<close>, when \<open>url[0]\<close> is an ASCII
  letter and every character before the colon is a scheme character.\<close>

definition split_scheme :: "string \<Rightarrow> string \<times> string" where
  "split_scheme url =
     (let pre = takeWhile (\<lambda>c. c \<noteq> CHR '':'') url in
      if CHR '':'' \<in> set url \<and> pre \<noteq> [] \<and> ascii_alpha (hd url) \<and> list_all scheme_char pre
      then (py_lower pre, tl (dropWhile (\<lambda>c. c \<noteq> CHR '':'') url))
      else ('''', url))"

definition netloc_delim :: "char \<Rightarrow> bool" where
  "netloc_delim c = (c = CHR ''/'' \<or> c = CHR ''?'' \<or> c = CHR ''#'')"

text \<open>\<open>_splitnetloc(url, 2)\<close>.\<close>

definition splitnetloc :: "string \<Rightarrow> string \<times> string" where
  "splitnetloc url =
     (takeWhile (\<lambda>c. \<not> netloc_delim c) (drop 2 url),
      dropWhile (\<lambda>c. \<not> netloc_delim c) (drop 2 url))"

text \<open>\<open>netloc.partition('[')[2].partition(']')[0]\<close>.\<close>

definition bracketed_host :: "string \<Rightarrow> string" where
  "bracketed_host nl =
     takeWhile (\<lambda>c. c \<noteq> CHR '']'') (tl (dropWhile (\<lambda>c. c \<noteq> CHR ''['') nl))"

text \<open>\<open>url.split(c, 1)\<close> when \<open>c\<close> occurs in \<open>url\<close>.\<close>

definition split_first :: "char \<Rightarrow> string \<Rightarrow> string \<times> string" where
  "split_first c url =
     (if c \<in> set url
      then (takeWhile (\<lambda>x. x \<noteq> c) url, tl (dropWhile (\<lambda>x. x \<noteq> c) url))
      else (url, ''''))"

definition urlsplit :: "(string \<Rightarrow> bool) \<Rightarrow> string \<Rightarrow> py_error + parse_result" where
  "urlsplit hostchk url0 =
     (let url1 = lstrip_where c0_or_space url0;
          url2 = filter (\<lambda>c. \<not> unsafe_byte c) url1;
          (sch, url3) = split_scheme url2;
          (nl, url4) = (if take 2 url3 = ''//'' then splitnetloc url3 else ('''', url3));
          lb = CHR ''['' \<in> set nl;
          rb = CHR '']'' \<in> set nl
      in if take 2 url3 = ''//'' \<and> ((lb \<and> \<not> rb) \<or> (rb \<and> \<not> lb)) then Inl ValueError
         else if take 2 url3 = ''//'' \<and> lb \<and> rb \<and> \<not> hostchk (bracketed_host nl) then Inl ValueError
         else
           (let (url5, frag) = split_first CHR ''#'' url4;
                (url6, qry) = split_first CHR ''?'' url5
            in Inr \<lparr>scheme = sch, netloc = nl, path = url6, params = '''',
                    query = qry, fragment = frag\<rparr>))"

text \<open>\<open>_splitparams\<close>: the parameters start at the first semicolon of the last path
  segment.\<close>

definition splitparams :: "string \<Rightarrow> string \<times> string" where
  "splitparams url =
     (if CHR ''/'' \<in> set url
      then (let k = length url - Suc (length (takeWhile (\<lambda>c. c \<noteq> CHR ''/'') (rev url)));
                seg = drop k url
            in if CHR '';'' \<in> set seg
               then (take k url @ takeWhile (\<lambda>c. c \<noteq> CHR '';'') seg,
                     tl (dropWhile (\<lambda>c. c \<noteq> CHR '';'') seg))
               else (url, ''''))
      else (takeWhile (\<lambda>c. c \<noteq> CHR '';'') url, tl (dropWhile (\<lambda>c. c \<noteq> CHR '';'') url)))"

definition urlparse :: "(string \<Rightarrow> bool) \<Rightarrow> string \<Rightarrow> py_error + parse_result" where
  "urlparse hostchk url =
     (case urlsplit hostchk url of
        Inl e \<Rightarrow> Inl e
      | Inr r \<Rightarrow>
          if scheme r \<in> set uses_params \<and> CHR '';'' \<in> set (path r)
          then (let (p, ps) = splitparams (path r) in Inr (r\<lparr>path := p, params := ps\<rparr>))
          else Inr r)"

section \<open>seo/cannibalization/utils.py\<close>

text \<open>\<open>normalize_full_url\<close>: the \<open>try\<close> block can only fail in \<open>urlparse\<close>.\<close>

definition normalize_full_url :: "(string \<Rightarrow> bool) \<Rightarrow> string \<Rightarrow> string" where
  "normalize_full_url hostchk url =
     (if url = [] then ''''
      else (case urlparse hostchk (py_strip (py_lower url)) of
              Inr parsed \<Rightarrow>
                (let domain = replace_del ''www.'' (netloc parsed);
                     pth = rstrip_char CHR ''/'' (path parsed)
                 in domain @ pth)
            | Inl e \<Rightarrow> py_strip (py_lower url)))"

definition normalize_path :: "(string \<Rightarrow> bool) \<Rightarrow> string \<Rightarrow> string" where
  "normalize_path hostchk url =
     (if url = [] then ''/''
      else (case urlparse hostchk (py_strip url) of
              Inr parsed \<Rightarrow>
                (let p0 = py_lower (path parsed);
                     p1 = (if endswith p0 ''/'' \<and> length p0 > 1
                           then rstrip_char CHR ''/'' p0 else p0);
                     p2 = (if \<not> prefix ''/'' p1 then ''/'' @ p1 else p1)
                 in p2)
            | Inl e \<Rightarrow> ''/''))"

definition get_path_parts :: "(string \<Rightarrow> bool) \<Rightarrow> string \<Rightarrow> string list" where
  "get_path_parts hostchk url =
     filter (\<lambda>p. p \<noteq> []) (split_char CHR ''/'' (strip_char CHR ''/'' (normalize_path hostchk url)))"


definition get_parent_path :: "(string \<Rightarrow> bool) \<Rightarrow> string \<Rightarrow> string" where
  "get_parent_path hostchk url =
     (let parts = get_path_parts hostchk url in
      if length parts \<le> 1 then ''/''
      else ''/'' @ join_char CHR ''/'' (butlast parts))"

definition get_slug_last :: "(string \<Rightarrow> bool) \<Rightarrow> string \<Rightarrow> string" where
  "get_slug_last hostchk url =
     (let parts = get_path_parts hostchk url in
      if parts = [] then '''' else last parts)"

text \<open>\<open>int(t)\<close> on a string for which \<open>t.isdigit()\<close> holds: the decimal value, and
  \<open>ValueError\<close> when a superscript digit occurs (it is a digit, not a decimal).\<close>

definition py_int :: "string \<Rightarrow> py_error + nat" where
  "py_int t =
     (if list_all ascii_digit t
      then Inr (foldl (\<lambda>acc c. 10 * acc + (code c - 48)) 0 t)
      else Inl ValueError)"

text \<open>The filter \<open>not (t.isdigit() and 2015 <= int(t) <= 2030)\<close> of
  \<open>extract_slug_tokens\<close>, for one token.\<close>

definition keep_non_year :: "string \<Rightarrow> py_error + bool" where
  "keep_non_year t =
     (if py_isdigit t
      then (case py_int t of
              Inl e \<Rightarrow> Inl e
            | Inr n \<Rightarrow> Inr (\<not> (2015 \<le> n \<and> n \<le> 2030)))
      else Inr True)"

text \<open>The set comprehension over the tokens: it raises as soon as one token does. A Python
  set has no order, so which token raises first does not show: the error is the same.\<close>

definition filter_years :: "string list \<Rightarrow> py_error + string list" where
  "filter_years ts =
     (if list_ex (\<lambda>t. keep_non_year t = Inl ValueError) ts then Inl ValueError
      else Inr (filter (\<lambda>t. keep_non_year t = Inr True) ts))"

definition is_hyphen_or_underscore :: "char \<Rightarrow> bool" where
  "is_hyphen_or_underscore c = (c = CHR ''-'' \<or> c = CHR ''_'')"

text \<open>\<open>extract_slug_tokens\<close>; \<open>stop_words\<close> is the constant \<open>SLUG_STOP_WORDS\<close>.\<close>

definition extract_slug_tokens ::
  "(string \<Rightarrow> bool) \<Rightarrow> string list \<Rightarrow> string \<Rightarrow> bool \<Rightarrow> py_error + string set" where
  "extract_slug_tokens hostchk stop_words url remove_stop_words =
     (let pth = normalize_path hostchk url;
          parts = get_path_parts hostchk pth;
          tokens = concat (map (\<lambda>part. split_where is_hyphen_or_underscore (py_lower part)) parts)
      in case filter_years tokens of
           Inl e \<Rightarrow> Inl e
         | Inr ts \<Rightarrow>
             (let ts3 = filter (\<lambda>t. length t \<ge> 3) ts
              in if remove_stop_words
                 then Inr (set ts3 - set stop_words)
                 else Inr (set ts3)))"

text \<open>\<open>slug_similarity\<close>: the quotient of two set sizes, kept as a rational. Python
  divides in floating point and the callers compare with \<open>0.80\<close>; the comparison agrees
  with the rational one for every set of fewer than \<open>10^15\<close> tokens.\<close>

definition slug_similarity ::
  "(string \<Rightarrow> bool) \<Rightarrow> string list \<Rightarrow> string \<Rightarrow> string \<Rightarrow> py_error + rat" where
  "slug_similarity hostchk stop_words url1 url2 =
     (case extract_slug_tokens hostchk stop_words url1 True of
        Inl e \<Rightarrow> Inl e
      | Inr tokens1 \<Rightarrow>
          (case extract_slug_tokens hostchk stop_words url2 True of
             Inl e \<Rightarrow> Inl e
           | Inr tokens2 \<Rightarrow>
               if tokens1 = {} \<and> tokens2 = {} then Inr 0
               else if tokens1 \<union> tokens2 = {} then Inr 0
               else Inr (of_nat (card (tokens1 \<inter> tokens2)) / of_nat (card (tokens1 \<union> tokens2)))))"

text \<open>\<open>is_legacy_variant\<close> and \<open>strip_legacy_suffix\<close>; \<open>legacy_sfx\<close> is the constant
  \<open>LEGACY_SUFFIXES\<close>, tried in its order.\<close>

definition is_legacy_variant :: "(string \<Rightarrow> bool) \<Rightarrow> string list \<Rightarrow> string \<Rightarrow> bool" where
  "is_legacy_variant hostchk legacy_sfx url =
     (if url = [] then False
      else (let slug_last = get_slug_last hostchk url
            in list_ex (\<lambda>sfx. endswith slug_last sfx) legacy_sfx))"

text \<open>\<open>last_slug[:-len(suffix)]\<close>: for the empty suffix this is \<open>last_slug[:0]\<close>.\<close>

definition drop_suffix_len :: "string \<Rightarrow> string \<Rightarrow> string" where
  "drop_suffix_len s sfx = (if sfx = [] then [] else take (length s - length sfx) s)"

definition strip_legacy_suffix :: "(string \<Rightarrow> bool) \<Rightarrow> string list \<Rightarrow> string \<Rightarrow> string" where
  "strip_legacy_suffix hostchk legacy_sfx url =
     (if url = [] then url
      else (let parts = get_path_parts hostchk url in
            if parts = [] then url
            else (let last_slug = last parts in
                  case find (\<lambda>sfx. endswith last_slug sfx) legacy_sfx of
                    Some sfx \<Rightarrow>
                      (let clean_slug = rstrip_char CHR ''-'' (drop_suffix_len last_slug sfx)
                       in ''/'' @ join_char CHR ''/'' (butlast parts @ [clean_slug]))
                  | None \<Rightarrow> url)))"

definition geo_separator :: "char \<Rightarrow> bool" where
  "geo_separator c = (c = CHR ''-'' \<or> py_isspace c \<or> c = CHR ''_'')"

definition normalize_geo :: "string \<Rightarrow> string" where
  "normalize_geo slug =
     (if slug = [] then []
      else filter (\<lambda>c. \<not> geo_separator c) (py_strip (py_lower slug)))"

definition is_direct_parent :: "(string \<Rightarrow> bool) \<Rightarrow> string \<Rightarrow> string \<Rightarrow> bool" where
  "is_direct_parent hostchk parent_url child_url =
     (let parent_parts = get_path_parts hostchk parent_url;
          child_parts = get_path_parts hostchk child_url
      in if length child_parts \<noteq> length parent_parts + 1 then False
         else parent_parts = take (length parent_parts) child_parts)"

definition has_distinct_subtopic :: "(string \<Rightarrow> bool) \<Rightarrow> string \<Rightarrow> string \<Rightarrow> bool" where
  "has_distinct_subtopic hostchk child_url parent_url =
     (let parent_slug = get_slug_last hostchk parent_url;
          child_slug = get_slug_last hostchk child_url
      in if parent_slug = [] \<or> child_slug = [] then False
         else (let parent_tokens = set (split_char CHR ''-'' parent_slug);
                   child_tokens = set (split_char CHR ''-'' child_slug)
               in if parent_tokens \<subseteq> child_tokens then False else True))"

text \<open>Modelled from the spec: the constant \<open>LEGACY_SUFFIXES\<close> of \<open>constants.py\<close>, a
  module that is not among the sources. The data model names the legacy endings \<open>-old\<close>,
  \<open>-backup\<close>, \<open>-2\<close>, \<open>-copy\<close>, and the tests of \<open>is_legacy_variant\<close> use the
  first three.\<close>

definition LEGACY_SUFFIXES :: "string list" where
  "LEGACY_SUFFIXES = [''-old'', ''-backup'', ''-2'', ''-copy'']"

section \<open>seo/cannibalization/models.py: the records the phases exchange\<close>

text \<open>A \<open>PageClassification\<close>, with the fields the phases read. The field
  \<open>is_legacy_variant\<close> is named \<open>is_legacy_variant_flag\<close> here, apart from the function of
  \<open>utils.py\<close>.\<close>

record page_classification =
  page_id :: nat
  url :: string
  title :: string
  normalized_url :: string
  normalized_path :: string
  classified_type :: string
  is_legacy_variant_flag :: bool
  folder_root :: string
  parent_path :: string
  slug_last :: string
  depth :: nat
  geo_node :: string
  service_keyword :: string
  slug_tokens_json :: "string list"

text \<open>A search-console row as the phases keep it after matching the page.\<close>

record gsc_row =
  row_query :: string
  row_page_url :: string
  row_normalized_url :: string
  row_page_class :: page_classification
  row_clicks :: int
  row_impressions :: int
  row_position :: rat

text \<open>The \<open>metadata\<close> dictionary of an issue: every key the detectors write, absent keys
  as \<open>None\<close>.\<close>

record issue_metadata =
  md_legacy_url :: "string option"
  md_shared_slug :: "string option"
  md_title_template :: "string option"
  md_service_keyword :: "string option"
  md_query :: "string option"
  md_total_impressions :: "int option"
  md_total_clicks :: "int option"
  md_gsc_rows :: "gsc_row list option"
  md_query_intent :: "string option"
  md_winner_type :: "string option"
  md_expected_type :: "string option"
  md_impressions :: "int option"
  md_clicks :: "int option"
  md_query_city :: "string option"
  md_winner_city :: "string option"
  md_correct_city :: "string option"

definition no_metadata :: issue_metadata where
  "no_metadata = \<lparr>md_legacy_url = None, md_shared_slug = None, md_title_template = None,
     md_service_keyword = None, md_query = None, md_total_impressions = None,
     md_total_clicks = None, md_gsc_rows = None, md_query_intent = None,
     md_winner_type = None, md_expected_type = None, md_impressions = None,
     md_clicks = None, md_query_city = None, md_winner_city = None, md_correct_city = None\<rparr>"

text \<open>An issue dictionary. \<open>severity\<close> and \<open>metadata\<close> may be absent; an absent
  \<open>gsc_validated\<close> and an absent \<open>pages\<close> read as \<open>False\<close> and \<open>[]\<close>, which is what
  \<open>issue.get\<close> makes of them.\<close>

record issue =
  conflict_type :: string
  severity :: "string option"
  pages :: "page_classification list"
  metadata :: "issue_metadata option"
  gsc_validated :: bool

section \<open>seo/cannibalization/phase6\_cluster.py\<close>

text \<open>\<open>str(n)\<close> for a page id or a count.\<close>

fun show_nat :: "nat \<Rightarrow> string" where
  "show_nat n =
     (if n < 10 then [char_of (48 + n)]
      else show_nat (n div 10) @ [char_of (48 + n mod 10)])"

declare show_nat.simps [simp del]

text \<open>\<open>sep.join(parts)\<close> for a separator string.\<close>

fun join_str :: "string \<Rightarrow> string list \<Rightarrow> string" where
  "join_str sep [] = []"
| "join_str sep [w] = w"
| "join_str sep (w # v # ws) = w @ sep @ join_str sep (v # ws)"

text \<open>Modelled from the spec: the constants \<open>MAX_CLUSTER_SIZE\<close>, \<open>BUCKET_SCORES\<close>,
  \<open>SEVERITY_SCORES\<close>, \<open>IMPRESSION_THRESHOLD_HIGH\<close> and \<open>IMPRESSION_THRESHOLD_MEDIUM\<close> of
  \<open>constants.py\<close>, a module that is not among the sources. The values are those of the
  spec's section on clustering; the docstrings of \<open>phase6_cluster.py\<close> also give the cap of
  15 pages.\<close>

definition MAX_CLUSTER_SIZE :: nat where
  "MAX_CLUSTER_SIZE = 15"

definition BUCKET_SCORES :: "(string \<times> int) list" where
  "BUCKET_SCORES = [(''SEARCH_CONFLICT'', 50), (''WRONG_WINNER'', 30), (''SITE_DUPLICATION'', 20)]"

definition SEVERITY_SCORES :: "(string \<times> int) list" where
  "SEVERITY_SCORES = [(''SEVERE'', 30), (''HIGH'', 22), (''MEDIUM'', 14), (''LOW'', 6)]"

definition IMPRESSION_THRESHOLD_HIGH :: int where
  "IMPRESSION_THRESHOLD_HIGH = 10000"

definition IMPRESSION_THRESHOLD_MEDIUM :: int where
  "IMPRESSION_THRESHOLD_MEDIUM = 1000"

text \<open>\<open>d.get(k, default)\<close> on a dictionary kept as an association list.\<close>

definition dict_get :: "('k \<times> 'v) list \<Rightarrow> 'k \<Rightarrow> 'v \<Rightarrow> 'v" where
  "dict_get d k dflt = (case map_of d k of None \<Rightarrow> dflt | Some v \<Rightarrow> v)"

definition wrong_winner_types :: "string list" where
  "wrong_winner_types =
     [''INTENT_MISMATCH'', ''GEOGRAPHIC_MISMATCH'', ''PAGE_TYPE_MISMATCH'', ''HOMEPAGE_HOARDING'']"

definition get_bucket :: "issue \<Rightarrow> string" where
  "get_bucket i =
     (if gsc_validated i \<or> prefix ''GSC_'' (conflict_type i) then ''SEARCH_CONFLICT''
      else if conflict_type i \<in> set wrong_winner_types then ''WRONG_WINNER''
      else ''SITE_DUPLICATION'')"

definition get_badge :: "issue \<Rightarrow> string" where
  "get_badge i =
     (let b = get_bucket i in
      if b = ''SEARCH_CONFLICT'' then ''CONFIRMED''
      else if b = ''WRONG_WINNER'' then ''WRONG_WINNER''
      else ''POTENTIAL'')"

definition action_map :: "(string \<times> string) list" where
  "action_map =
     [(''TAXONOMY_CLASH'', ''REDIRECT_TO_CANONICAL''),
      (''LEGACY_CLEANUP'', ''REDIRECT_TO_CANONICAL''),
      (''LEGACY_ORPHAN'', ''REVIEW_AND_REDIRECT''),
      (''NEAR_DUPLICATE_CONTENT'', ''REDIRECT_TO_CANONICAL''),
      (''CONTEXT_DUPLICATE'', ''REDIRECT_OR_DIFFERENTIATE''),
      (''LOCATION_BOILERPLATE'', ''REWRITE_LOCAL_EVIDENCE''),
      (''GSC_CONFIRMED'', ''REDIRECT_TO_CANONICAL''),
      (''INTENT_MISMATCH'', ''STRENGTHEN_CORRECT_PAGE''),
      (''GEOGRAPHIC_MISMATCH'', ''REWRITE_LOCAL_EVIDENCE''),
      (''PAGE_TYPE_MISMATCH'', ''STRENGTHEN_CORRECT_PAGE''),
      (''HOMEPAGE_HOARDING'', ''STRENGTHEN_CORRECT_PAGE'')]"

definition get_action_code :: "issue \<Rightarrow> string" where
  "get_action_code i = dict_get action_map (conflict_type i) ''REVIEW_AND_REDIRECT''"

definition severity_rank :: "string \<Rightarrow> int" where
  "severity_rank s =
     dict_get [(''SEVERE'', 4), (''HIGH'', 3), (''MEDIUM'', 2), (''LOW'', 1)] s 0"

text \<open>\<open>_calculate_priority\<close>; the bucket and the severity of a cluster are \<open>None\<close> until
  its first issue sets them, and \<open>dict.get\<close> gives 0 for \<open>None\<close>.\<close>

definition calculate_priority :: "string option \<Rightarrow> string option \<Rightarrow> int \<Rightarrow> int" where
  "calculate_priority bkt sev impressions =
     (let bucket_score = (case bkt of None \<Rightarrow> 0 | Some b \<Rightarrow> dict_get BUCKET_SCORES b 0);
          severity_score = (case sev of None \<Rightarrow> 0 | Some s \<Rightarrow> dict_get SEVERITY_SCORES s 0);
          impression_score =
            (if impressions \<ge> IMPRESSION_THRESHOLD_HIGH then 20
             else if impressions \<ge> IMPRESSION_THRESHOLD_MEDIUM then 10
             else if impressions > 0 then 5
             else 0)
      in bucket_score + severity_score + impression_score)"

text \<open>\<open>_split_large_cluster\<close>. \<open>folder_groups\<close> is a \<open>defaultdict(list)\<close>: a dictionary
  in insertion order, here an association list. \<open>max(values, key=len)\<close> returns the
  first of the longest groups.\<close>

definition append_to_group ::
  "(string \<times> page_classification list) list \<Rightarrow> page_classification
   \<Rightarrow> (string \<times> page_classification list) list" where
  "append_to_group groups p =
     AList.update (folder_root p) (dict_get groups (folder_root p) [] @ [p]) groups"

definition folder_groups :: "page_classification list \<Rightarrow> (string \<times> page_classification list) list" where
  "folder_groups ps = foldl append_to_group [] ps"

fun first_longest :: "'a list \<Rightarrow> 'a list list \<Rightarrow> 'a list" where
  "first_longest best [] = best"
| "first_longest best (g # gs) =
     first_longest (if length g > length best then g else best) gs"

definition max_by_len :: "'a list list \<Rightarrow> 'a list" where
  "max_by_len gs = (case gs of [] \<Rightarrow> [] | g # rest \<Rightarrow> first_longest g rest)"

definition split_large_cluster :: "page_classification list \<Rightarrow> string \<Rightarrow> page_classification list" where
  "split_large_cluster ps cluster_key =
     (let groups = folder_groups ps;
          largest_group = max_by_len (map snd groups)
      in if length groups > 1 \<and> length largest_group \<le> MAX_CLUSTER_SIZE
         then take MAX_CLUSTER_SIZE largest_group
         else take MAX_CLUSTER_SIZE ps)"

text \<open>\<open>_generate_cluster_key\<close>. \<open>metadata = issue.get('metadata', {})\<close>, and every key is
  read with \<open>metadata.get(key, default)\<close>.\<close>

definition md_get :: "issue \<Rightarrow> (issue_metadata \<Rightarrow> 'a option) \<Rightarrow> 'a \<Rightarrow> 'a" where
  "md_get i field dflt =
     (case metadata i of
        None \<Rightarrow> dflt
      | Some md \<Rightarrow> (case field md of None \<Rightarrow> dflt | Some v \<Rightarrow> v))"

definition generate_cluster_key :: "(string \<Rightarrow> bool) \<Rightarrow> string list \<Rightarrow> issue \<Rightarrow> string" where
  "generate_cluster_key hostchk legacy_sfx i =
     (let ct = conflict_type i in
      if ct \<in> set [''LEGACY_CLEANUP'', ''LEGACY_ORPHAN'']
      then (let legacy_url = md_get i md_legacy_url '''';
                base_slug = get_slug_last hostchk (strip_legacy_suffix hostchk legacy_sfx legacy_url)
            in ct @ '':'' @ base_slug)
      else if ct = ''TAXONOMY_CLASH''
      then ct @ '':'' @ md_get i md_shared_slug ''unknown''
      else if ct = ''LOCATION_BOILERPLATE''
      then ct @ '':'' @ take 50 (md_get i md_title_template ''unknown'')
      else if ct = ''CONTEXT_DUPLICATE''
      then ct @ '':'' @ md_get i md_service_keyword ''unknown''
      else if ct = ''GSC_CONFIRMED''
      then ct @ '':'' @ md_get i md_query ''unknown''
      else if ct \<in> set wrong_winner_types
      then ct @ '':'' @ md_get i md_query ''unknown''
      else if ct = ''NEAR_DUPLICATE_CONTENT''
      then ct @ '':'' @ join_str ''_'' (map show_nat (sort (map page_id (pages i))))
      else ct @ '':default'')"

text \<open>The \<open>gsc_data\<close> dictionary of a cluster, and the cluster under construction (the
  value of \<open>cluster_map\<close>).\<close>

record gsc_data =
  total_impressions :: "int option"
  total_clicks :: "int option"
  gsc_rows :: "gsc_row list option"
  queries :: "string list option"

definition empty_gsc_data :: gsc_data where
  "empty_gsc_data = \<lparr>total_impressions = None, total_clicks = None, gsc_rows = None, queries = None\<rparr>"

record cluster_acc =
  acc_issues :: "issue list"
  acc_pages :: "(nat \<times> page_classification) list"
  acc_conflict_type :: "string option"
  acc_bucket :: "string option"
  acc_badge :: "string option"
  acc_severity :: "string option"
  acc_action_code :: "string option"
  acc_gsc_data :: gsc_data

definition new_cluster :: cluster_acc where
  "new_cluster = \<lparr>acc_issues = [], acc_pages = [], acc_conflict_type = None, acc_bucket = None,
     acc_badge = None, acc_severity = None, acc_action_code = None,
     acc_gsc_data = empty_gsc_data\<rparr>"

text \<open>The steps of the loop body of \<open>run_phase6\<close>, in the order of the source.\<close>

definition set_from_first :: "issue \<Rightarrow> cluster_acc \<Rightarrow> cluster_acc" where
  "set_from_first i c =
     (if acc_conflict_type c = None
      then c\<lparr>acc_conflict_type := Some (conflict_type i),
              acc_bucket := Some (get_bucket i),
              acc_badge := Some (get_badge i),
              acc_action_code := Some (get_action_code i)\<rparr>
      else c)"

definition upgrade_severity :: "issue \<Rightarrow> cluster_acc \<Rightarrow> cluster_acc" where
  "upgrade_severity i c =
     (let issue_severity = (case severity i of None \<Rightarrow> ''LOW'' | Some s \<Rightarrow> s) in
      case acc_severity c of
        None \<Rightarrow> c\<lparr>acc_severity := Some issue_severity\<rparr>
      | Some s \<Rightarrow>
          if severity_rank issue_severity > severity_rank s
          then c\<lparr>acc_severity := Some issue_severity\<rparr>
          else c)"

text \<open>Every page of an issue is a \<open>PageClassification\<close>, so \<open>hasattr(page, 'page_id')\<close>
  holds. Assigning to a key that is already in the dictionary keeps its position.\<close>

definition collect_pages :: "issue \<Rightarrow> cluster_acc \<Rightarrow> cluster_acc" where
  "collect_pages i c =
     c\<lparr>acc_pages := foldl (\<lambda>d p. AList.update (page_id p) p d) (acc_pages c) (pages i)\<rparr>"

definition merge_gsc :: "issue_metadata \<Rightarrow> gsc_data \<Rightarrow> gsc_data" where
  "merge_gsc md g0 =
     (let g1 = (case md_total_impressions md of
                  None \<Rightarrow> g0
                | Some n \<Rightarrow> g0\<lparr>total_impressions :=
                     Some ((case total_impressions g0 of None \<Rightarrow> 0 | Some t \<Rightarrow> t) + n)\<rparr>);
          g2 = (case md_total_clicks md of
                  None \<Rightarrow> g1
                | Some n \<Rightarrow> g1\<lparr>total_clicks :=
                     Some ((case total_clicks g1 of None \<Rightarrow> 0 | Some t \<Rightarrow> t) + n)\<rparr>);
          g3 = (case md_gsc_rows md of
                  None \<Rightarrow> g2
                | Some rows \<Rightarrow> g2\<lparr>gsc_rows :=
                     Some ((case gsc_rows g2 of None \<Rightarrow> [] | Some rs \<Rightarrow> rs) @ rows)\<rparr>);
          g4 = (case md_query md of
                  None \<Rightarrow> g3
                | Some q \<Rightarrow> g3\<lparr>queries :=
                     Some ((case queries g3 of None \<Rightarrow> [] | Some qs \<Rightarrow> qs) @ [q])\<rparr>)
      in g4)"

definition merge_metadata :: "issue \<Rightarrow> cluster_acc \<Rightarrow> cluster_acc" where
  "merge_metadata i c =
     (case metadata i of
        None \<Rightarrow> c
      | Some md \<Rightarrow> c\<lparr>acc_gsc_data := merge_gsc md (acc_gsc_data c)\<rparr>)"

definition merge_issue :: "issue \<Rightarrow> cluster_acc \<Rightarrow> cluster_acc" where
  "merge_issue i c =
     merge_metadata i (collect_pages i (upgrade_severity i (set_from_first i
       (c\<lparr>acc_issues := acc_issues c @ [i]\<rparr>))))"

text \<open>\<open>cluster_map\<close> is a \<open>defaultdict\<close>: reading a new key inserts a fresh cluster at
  the end, and the dictionary keeps the order of insertion.\<close>

definition add_issue ::
  "(string \<Rightarrow> bool) \<Rightarrow> string list \<Rightarrow> (string \<times> cluster_acc) list \<Rightarrow> issue
   \<Rightarrow> (string \<times> cluster_acc) list" where
  "add_issue hostchk legacy_sfx cluster_map i =
     (let cluster_key = generate_cluster_key hostchk legacy_sfx i;
          cluster = dict_get cluster_map cluster_key new_cluster
      in AList.update cluster_key (merge_issue i cluster) cluster_map)"

definition build_cluster_map ::
  "(string \<Rightarrow> bool) \<Rightarrow> string list \<Rightarrow> issue list \<Rightarrow> (string \<times> cluster_acc) list" where
  "build_cluster_map hostchk legacy_sfx all_issues =
     foldl (add_issue hostchk legacy_sfx) [] all_issues"

text \<open>\<open>_generate_recommendation\<close>; the page count is the one of the cluster before the
  size cap.\<close>

definition generate_recommendation :: "cluster_acc \<Rightarrow> string" where
  "generate_recommendation c =
     (let n = show_nat (length (acc_pages c));
          recommendations =
            [(''TAXONOMY_CLASH'', ''Choose ONE canonical folder structure for these '' @ n @ '' pages. Redirect duplicates via 301.''),
             (''LEGACY_CLEANUP'', ''Redirect '' @ n @ '' legacy pages to their clean versions via 301.''),
             (''LEGACY_ORPHAN'', ''Review '' @ n @ '' orphaned legacy pages. Either redirect to a current page or update the URL.''),
             (''NEAR_DUPLICATE_CONTENT'', ''Consolidate '' @ n @ '' near-duplicate pages. Choose canonical, redirect others.''),
             (''CONTEXT_DUPLICATE'', ''Either merge '' @ n @ '' duplicate service pages or differentiate with unique content (70%+ different).''),
             (''LOCATION_BOILERPLATE'', ''Rewrite '' @ n @ '' location pages with unique local evidence: venue names, local reviews, neighborhood photos.''),
             (''GSC_CONFIRMED'', ''Google sees '' @ n @ '' pages competing for the same query. Consolidate or canonicalize.''),
             (''INTENT_MISMATCH'', ''De-optimize blog for this commercial keyword. Strengthen the correct page.''),
             (''GEOGRAPHIC_MISMATCH'', ''Add unique local evidence to the correct location page. Prune city mentions from wrong page.''),
             (''PAGE_TYPE_MISMATCH'', ''Strengthen the category page. De-optimize product page for generic keywords.''),
             (''HOMEPAGE_HOARDING'', ''Remove service content from homepage. Add clear link from homepage to service page.'')];
          dflt = ''Review and resolve '' @ n @ '' conflicting pages.''
      in case acc_conflict_type c of
           None \<Rightarrow> dflt
         | Some ct \<Rightarrow> dict_get recommendations ct dflt)"

text \<open>A cluster of the result.\<close>

record cluster =
  cluster_key :: string
  out_conflict_type :: "string option"
  bucket :: "string option"
  badge :: "string option"
  out_severity :: "string option"
  action_code :: "string option"
  priority_score :: int
  page_count :: nat
  out_pages :: "page_classification list"
  out_gsc_data :: "gsc_data option"
  recommendation :: string

definition cluster_result :: "string \<times> cluster_acc \<Rightarrow> cluster" where
  "cluster_result kc =
     (let cluster_key = fst kc;
          c = snd kc;
          all_pages0 = map snd (acc_pages c);
          all_pages = (if length all_pages0 > MAX_CLUSTER_SIZE
                       then split_large_cluster all_pages0 cluster_key
                       else all_pages0);
          priority = calculate_priority (acc_bucket c) (acc_severity c)
                       (case total_impressions (acc_gsc_data c) of None \<Rightarrow> 0 | Some t \<Rightarrow> t)
      in \<lparr>cluster_key = cluster_key,
          out_conflict_type = acc_conflict_type c,
          bucket = acc_bucket c,
          badge = acc_badge c,
          out_severity = acc_severity c,
          action_code = acc_action_code c,
          priority_score = priority,
          page_count = length all_pages,
          out_pages = all_pages,
          out_gsc_data = (if acc_gsc_data c = empty_gsc_data then None else Some (acc_gsc_data c)),
          recommendation = generate_recommendation c\<rparr>)"

text \<open>The sort key of the result, and \<open>run_phase6\<close>. \<open>list.sort\<close> is stable, as
  \<open>sort_key\<close> is.\<close>

definition bucket_order :: "cluster \<Rightarrow> nat \<times> int" where
  "bucket_order x =
     ((if bucket x = Some ''SEARCH_CONFLICT'' then 0
       else if bucket x = Some ''SITE_DUPLICATION'' then 1 else 2),
      - priority_score x)"

definition run_phase6 :: "(string \<Rightarrow> bool) \<Rightarrow> string list \<Rightarrow> issue list \<Rightarrow> cluster list" where
  "run_phase6 hostchk legacy_sfx all_issues =
     (if all_issues = [] then []
      else sort_key bucket_order
             (map cluster_result (build_cluster_map hostchk legacy_sfx all_issues)))"

text \<open>The size cap as the specification words it: when at least one folder sub-group
  has at most 15 pages, the largest of those sub-groups; otherwise the first 15 pages.\<close>

definition spec_split_large_cluster :: "page_classification list \<Rightarrow> page_classification list" where
  "spec_split_large_cluster ps =
     (let fitting = filter (\<lambda>g. length g \<le> 15) (map snd (folder_groups ps))
      in if fitting \<noteq> [] then max_by_len fitting else take 15 ps)"

text \<open>Pages and issues for the concrete evaluations below: a page with an id, a path and a
  folder root, and a legacy-cleanup issue for a legacy URL.\<close>

definition example_page :: "nat \<Rightarrow> string \<Rightarrow> string \<Rightarrow> page_classification" where
  "example_page n pth fr =
     \<lparr>page_id = n, url = ''https://example.com'' @ pth, title = ''Page'',
      normalized_url = ''example.com'' @ pth, normalized_path = pth,
      classified_type = ''uncategorized'', is_legacy_variant_flag = False,
      folder_root = fr, parent_path = ''/'', slug_last = fr, depth = 1,
      geo_node = '''', service_keyword = '''', slug_tokens_json = []\<rparr>"

definition example_pages :: "nat list \<Rightarrow> string \<Rightarrow> page_classification list" where
  "example_pages ids fr = map (\<lambda>n. example_page n (''/'' @ fr @ ''/p'' @ show_nat n) fr) ids"

definition legacy_cleanup_issue :: "string \<Rightarrow> page_classification list \<Rightarrow> bool \<Rightarrow> issue" where
  "legacy_cleanup_issue legacy_url ps validated =
     \<lparr>conflict_type = ''LEGACY_CLEANUP'', severity = Some ''HIGH'', pages = ps,
      metadata = Some (no_metadata\<lparr>md_legacy_url := Some legacy_url\<rparr>),
      gsc_validated = validated\<rparr>"

definition pages_tied_folders :: "page_classification list" where
  "pages_tied_folders = example_pages [1..<9] ''a'' @ example_pages [9..<17] ''b''"

definition pages_big_folder :: "page_classification list" where
  "pages_big_folder = example_pages [1..<17] ''a'' @ example_pages [17..<18] ''b''"

definition unvalidated_issue :: issue where
  "unvalidated_issue =
     legacy_cleanup_issue ''/foo-old''
       [example_page 1 ''/foo'' ''foo'', example_page 2 ''/foo-old'' ''foo-old''] False"

definition validated_issue :: issue where
  "validated_issue =
     legacy_cleanup_issue ''/foo-backup''
       [example_page 1 ''/foo'' ''foo'', example_page 3 ''/foo-backup'' ''foo-backup''] True"

section \<open>seo/cannibalization/phase2\_safe\_filters.py\<close>

text \<open>\<open>_is_legacy_pair\<close>: the two paths strip to the same clean path and differ.\<close>

definition is_legacy_pair :: "(string \<Rightarrow> bool) \<Rightarrow> string list \<Rightarrow> string \<Rightarrow> string \<Rightarrow> bool" where
  "is_legacy_pair hostchk legacy_sfx path_a path_b =
     (let clean_a = strip_legacy_suffix hostchk legacy_sfx path_a;
          clean_b = strip_legacy_suffix hostchk legacy_sfx path_b
      in clean_a = clean_b \<and> path_a \<noteq> path_b)"

text \<open>\<open>_are_product_siblings\<close>. The call of \<open>slug_similarity\<close> is the one place of this
  phase that can raise, so the filter returns an error or a boolean. The threshold
  \<open>0.80\<close> is the rational \<open>4/5\<close>.\<close>

definition are_product_siblings ::
  "(string \<Rightarrow> bool) \<Rightarrow> string list \<Rightarrow> string list
   \<Rightarrow> page_classification \<Rightarrow> page_classification \<Rightarrow> py_error + bool" where
  "are_product_siblings hostchk stop_words legacy_sfx page_a page_b =
     (if classified_type page_a \<noteq> ''product'' \<or> classified_type page_b \<noteq> ''product''
      then Inr False
      else if parent_path page_a \<noteq> parent_path page_b then Inr False
      else if slug_last page_a = slug_last page_b then Inr False
      else if (is_legacy_variant_flag page_a \<or> is_legacy_variant_flag page_b)
              \<and> is_legacy_pair hostchk legacy_sfx (normalized_path page_a) (normalized_path page_b)
      then Inr False
      else (case slug_similarity hostchk stop_words (normalized_path page_a) (normalized_path page_b) of
              Inl e \<Rightarrow> Inl e
            | Inr similarity \<Rightarrow> if similarity \<ge> 4 / 5 then Inr False else Inr True))"

text \<open>\<open>_are_parent_child\<close>: A is the direct parent of B and B has a distinct subtopic, or
  the same with the roles exchanged.\<close>

definition are_parent_child ::
  "(string \<Rightarrow> bool) \<Rightarrow> page_classification \<Rightarrow> page_classification \<Rightarrow> bool" where
  "are_parent_child hostchk page_a page_b =
     (if is_direct_parent hostchk (normalized_path page_a) (normalized_path page_b)
         \<and> has_distinct_subtopic hostchk (normalized_path page_b) (normalized_path page_a)
      then True
      else if is_direct_parent hostchk (normalized_path page_b) (normalized_path page_a)
              \<and> has_distinct_subtopic hostchk (normalized_path page_a) (normalized_path page_b)
      then True
      else False)"

text \<open>\<open>_are_geographic_variants\<close>; \<open>not page.geo_node\<close> is true of the empty string.\<close>

definition are_geographic_variants :: "page_classification \<Rightarrow> page_classification \<Rightarrow> bool" where
  "are_geographic_variants page_a page_b =
     (if classified_type page_a \<noteq> ''location'' \<or> classified_type page_b \<noteq> ''location''
      then False
      else if geo_node page_a = [] \<or> geo_node page_b = [] then False
      else (let geo_a = normalize_geo (geo_node page_a);
                geo_b = normalize_geo (geo_node page_b)
            in if geo_a = geo_b then False else True))"

text \<open>\<open>_is_safe_pair\<close>: the three filters in their order; an exception of the first one
  leaves the function.\<close>

definition is_safe_pair ::
  "(string \<Rightarrow> bool) \<Rightarrow> string list \<Rightarrow> string list
   \<Rightarrow> page_classification \<Rightarrow> page_classification \<Rightarrow> py_error + bool" where
  "is_safe_pair hostchk stop_words legacy_sfx page_a page_b =
     (case are_product_siblings hostchk stop_words legacy_sfx page_a page_b of
        Inl e \<Rightarrow> Inl e
      | Inr siblings \<Rightarrow>
          if siblings then Inr True
          else if are_parent_child hostchk page_a page_b then Inr True
          else if are_geographic_variants page_a page_b then Inr True
          else Inr False)"

text \<open>Pages for the concrete evaluations of this phase: a hub page and one of its spokes.\<close>

definition hub_page :: page_classification where
  "hub_page =
     \<lparr>page_id = 1, url = ''https://example.com/services/'', title = ''Services'',
      normalized_url = ''example.com/services'', normalized_path = ''/services'',
      classified_type = ''category_service'', is_legacy_variant_flag = False,
      folder_root = ''services'', parent_path = ''/'', slug_last = ''services'', depth = 1,
      geo_node = '''', service_keyword = '''', slug_tokens_json = [''services'']\<rparr>"

definition spoke_page :: page_classification where
  "spoke_page =
     \<lparr>page_id = 2, url = ''https://example.com/services/event-planning/'',
      title = ''Event planning'',
      normalized_url = ''example.com/services/event-planning'',
      normalized_path = ''/services/event-planning'',
      classified_type = ''service'', is_legacy_variant_flag = False,
      folder_root = ''services'', parent_path = ''/services'', slug_last = ''event-planning'',
      depth = 2, geo_node = '''', service_keyword = '''',
      slug_tokens_json = [''services'', ''event'', ''planning'']\<rparr>"

section \<open>seo/cannibalization/phase1\_ingest.py\<close>





section \<open>seo/cannibalization/phase4\_gsc\_validate.py: the severity of a GSC issue\<close>

text \<open>Modelled from the spec: \<open>_calculate_severity\<close> of \<open>phase4_gsc_validate.py\<close>, a module
  that is not among the sources; only its tests are. The rows of a query are given by
  their impression shares, in the order of the rows (the winner first, the secondary row
  second), as the tests of \<open>TestSeverityCalculation\<close> give them. A group of fewer than
  two rows has no secondary row, and its secondary share counts as zero.\<close>

definition secondary_share :: "rat list \<Rightarrow> rat" where
  "secondary_share shares = (if length shares \<ge> 2 then shares ! 1 else 0)"

definition calculate_severity :: "rat list \<Rightarrow> string" where
  "calculate_severity shares =
     (if length (filter (\<lambda>s. s \<ge> 1 / 10) shares) \<ge> 3 then ''SEVERE''
      else if secondary_share shares \<ge> 35 / 100 then ''HIGH''
      else if secondary_share shares \<ge> 15 / 100 then ''MEDIUM''
      else ''LOW'')"

section \<open>Queries: \<open>classify_query_intent\<close>, \<open>is_plural_query\<close>, \<open>is_branded_query\<close> of utils.py\<close>

text \<open>The tables of \<open>constants.py\<close> that the query functions and phase 5 read. The module
  is not among the sources, so the tables are parameters. \<open>INTENT_MARKERS\<close> is a
  dictionary, read in its order by \<open>items()\<close>.\<close>

record constants =
  SLUG_STOP_WORDS :: "string list"
  INTENT_MARKERS :: "(string \<times> string list) list"
  GEO_MODIFIERS :: "string list"
  BRANDED_QUERY_INDICATORS :: "string list"
  MIN_IMPRESSIONS_THRESHOLD :: int

text \<open>\<open>classify_query_intent\<close>: the intent of the first entry of \<open>INTENT_MARKERS\<close> one of
  whose markers occurs in the query, and whether a geographic modifier occurs in it.\<close>

definition classify_query_intent :: "constants \<Rightarrow> string \<Rightarrow> string \<times> bool" where
  "classify_query_intent K qry =
     (let query_lower = py_lower qry;
          has_local = list_ex (\<lambda>geo. contains geo query_lower) (GEO_MODIFIERS K)
      in case find (\<lambda>entry. list_ex (\<lambda>marker. contains marker query_lower) (snd entry))
                   (INTENT_MARKERS K) of
           Some entry \<Rightarrow> (fst entry, has_local)
         | None \<Rightarrow> (''ambiguous'', has_local))"

definition is_plural_query :: "string \<Rightarrow> bool" where
  "is_plural_query qry =
     (if qry = [] then False
      else (let wrds = py_split_ws (py_lower qry)
            in if wrds = [] then False
               else (let last_word = last wrds
                     in endswith last_word ''s''
                        \<and> \<not> (endswith last_word ''ss'' \<or> endswith last_word ''us''
                               \<or> endswith last_word ''is''))))"

text \<open>\<open>re.split(r'\s+[\|\-\<dots>]\s+', title)[0]\<close>: the title up to the first place where
  whitespace, a separator and whitespace follow one another. The third separator of the
  pattern, the en dash, is not a Latin-1 character and does not occur in the strings of this
  model.\<close>

definition title_separator :: "char \<Rightarrow> bool" where
  "title_separator c = (c = CHR ''|'' \<or> c = CHR ''-'')"

fun first_title_part :: "string \<Rightarrow> string" where
  "first_title_part [] = []"
| "first_title_part (c # cs) =
     (if py_isspace c
         \<and> (let r = dropWhile py_isspace cs
             in r \<noteq> [] \<and> title_separator (hd r) \<and> tl r \<noteq> [] \<and> py_isspace (hd (tl r)))
      then []
      else c # first_title_part cs)"

text \<open>\<open>is_branded_query\<close>; a brand name and a homepage title may be \<open>None\<close>.\<close>

definition is_branded_query :: "constants \<Rightarrow> string \<Rightarrow> string option \<Rightarrow> string option \<Rightarrow> bool" where
  "is_branded_query K qry brand_name homepage_title =
     (if qry = [] then False
      else (let query_lower = py_lower qry
            in if (case brand_name of
                     None \<Rightarrow> False
                   | Some b \<Rightarrow> b \<noteq> [] \<and> contains (py_lower b) query_lower)
               then True
               else if (case homepage_title of
                          None \<Rightarrow> False
                        | Some t \<Rightarrow>
                            t \<noteq> [] \<and> length (first_title_part t) > 3
                            \<and> contains (py_lower (py_strip (first_title_part t))) query_lower)
               then True
               else list_ex (\<lambda>indicator. contains indicator query_lower)
                      (BRANDED_QUERY_INDICATORS K)))"

section \<open>seo/cannibalization/phase5\_wrong\_winner.py\<close>

text \<open>\<open>_has_query_overlap\<close>: a word of the query that is no stop word is a slug token of
  the page.\<close>

definition has_query_overlap :: "constants \<Rightarrow> string \<Rightarrow> page_classification \<Rightarrow> bool" where
  "has_query_overlap K qry pc =
     (let query_words = set (py_split_ws (py_lower qry)) - set (SLUG_STOP_WORDS K);
          page_tokens = set (slug_tokens_json pc);
          overlap = query_words \<inter> page_tokens
      in overlap \<noteq> {})"

text \<open>\<open>_extract_city_from_query\<close>. The pattern \<open>\bin\s+([a-z]+(?:\s+[a-z]+)?)\<close> matches at
  a place where the keyword begins a word, is followed by whitespace and then by a lower-case
  letter; its group is the run of letters and, if whitespace and a letter follow, the next
  run of letters too. \<open>re.search\<close> takes the first such place. \<open>\w\<close> is a letter, a
  digit or the underscore, among the Latin-1 characters.\<close>

definition word_char :: "char \<Rightarrow> bool" where
  "word_char c = (let n = code c in
     ascii_alpha c \<or> ascii_digit c \<or> c = CHR ''_'' \<or> n = 170 \<or> n = 178 \<or> n = 179
     \<or> n = 181 \<or> n = 185 \<or> n = 186 \<or> (188 \<le> n \<and> n \<le> 190)
     \<or> (192 \<le> n \<and> n \<le> 214) \<or> (216 \<le> n \<and> n \<le> 246) \<or> 248 \<le> n)"

definition city_group :: "string \<Rightarrow> string option" where
  "city_group rest =
     (let after_ws = dropWhile py_isspace rest
      in if takeWhile py_isspace rest = [] \<or> after_ws = [] \<or> \<not> ascii_lower (hd after_ws)
         then None
         else (let word1 = takeWhile ascii_lower after_ws;
                   rest1 = dropWhile ascii_lower after_ws;
                   gap = takeWhile py_isspace rest1;
                   word2 = takeWhile ascii_lower (dropWhile py_isspace rest1)
               in if gap \<noteq> [] \<and> word2 \<noteq> [] then Some (word1 @ gap @ word2)
                  else Some word1))"

fun search_city :: "string \<Rightarrow> bool \<Rightarrow> string \<Rightarrow> string option" where
  "search_city keyword after_word [] = None"
| "search_city keyword after_word (c # cs) =
     (case (if \<not> after_word \<and> prefix keyword (c # cs)
            then city_group (drop (length keyword) (c # cs)) else None) of
        Some g \<Rightarrow> Some g
      | None \<Rightarrow> search_city keyword (word_char c) cs)"

definition extract_city_from_query :: "string \<Rightarrow> string option" where
  "extract_city_from_query qry =
     (let query_lower = py_lower qry
      in case search_city ''in'' False query_lower of
           Some g \<Rightarrow> Some (py_strip g)
         | None \<Rightarrow>
             (case search_city ''near'' False query_lower of
                Some g \<Rightarrow> Some (py_strip g)
              | None \<Rightarrow> None))"

text \<open>The four mismatches of \<open>_detect_wrong_winner\<close>, each \<open>None\<close> when the code goes on to
  the next one. An issue of this phase has no key \<open>gsc_validated\<close>.\<close>

definition wrong_winner_issue ::
  "string \<Rightarrow> string \<Rightarrow> page_classification list \<Rightarrow> issue_metadata \<Rightarrow> issue" where
  "wrong_winner_issue ct sev ps md =
     \<lparr>conflict_type = ct, severity = Some sev, pages = ps, metadata = Some md,
      gsc_validated = False\<rparr>"

definition intent_mismatch ::
  "constants \<Rightarrow> string \<Rightarrow> string \<Rightarrow> gsc_row \<Rightarrow> page_classification list \<Rightarrow> issue option" where
  "intent_mismatch K qry query_intent winner classifications =
     (let winner_page = row_page_class winner
      in if query_intent = ''transactional'' \<and> classified_type winner_page \<in> set [''blog'']
         then (let better_pages =
                     filter (\<lambda>pc. classified_type pc \<in> set [''category_woo'', ''category_shop'',
                                     ''category_custom'', ''service_hub'', ''service_spoke'', ''product'']
                                   \<and> has_query_overlap K qry pc) classifications
               in if better_pages \<noteq> []
                  then Some (wrong_winner_issue ''INTENT_MISMATCH'' ''MEDIUM''
                               (winner_page # take 2 better_pages)
                               (no_metadata\<lparr>md_query := Some qry,
                                  md_query_intent := Some query_intent,
                                  md_winner_type := Some (classified_type winner_page),
                                  md_expected_type := Some ''category or service'',
                                  md_impressions := Some (row_impressions winner),
                                  md_clicks := Some (row_clicks winner)\<rparr>))
                  else None)
         else None)"

definition page_type_mismatch ::
  "constants \<Rightarrow> string \<Rightarrow> bool \<Rightarrow> gsc_row \<Rightarrow> page_classification list \<Rightarrow> issue option" where
  "page_type_mismatch K qry is_plural winner classifications =
     (let winner_page = row_page_class winner
      in if is_plural \<and> classified_type winner_page = ''product''
         then (let category_pages =
                     filter (\<lambda>pc. classified_type pc \<in> set [''category_woo'', ''category_shop'',
                                     ''category_custom'']
                                   \<and> has_query_overlap K qry pc) classifications
               in if category_pages \<noteq> []
                  then Some (wrong_winner_issue ''PAGE_TYPE_MISMATCH'' ''MEDIUM''
                               (winner_page # take 1 category_pages)
                               (no_metadata\<lparr>md_query := Some qry,
                                  md_winner_type := Some ''product'',
                                  md_expected_type := Some ''category'',
                                  md_impressions := Some (row_impressions winner),
                                  md_clicks := Some (row_clicks winner)\<rparr>))
                  else None)
         else None)"

definition homepage_hoarding ::
  "constants \<Rightarrow> string \<Rightarrow> gsc_row \<Rightarrow> page_classification list \<Rightarrow> issue option" where
  "homepage_hoarding K qry winner classifications =
     (let winner_page = row_page_class winner
      in if classified_type winner_page = ''homepage''
         then (let specific_pages =
                     filter (\<lambda>pc. classified_type pc \<in> set [''service_hub'', ''service_spoke'',
                                     ''product'', ''category_woo'', ''category_shop'']
                                   \<and> has_query_overlap K qry pc) classifications
               in if specific_pages \<noteq> []
                  then Some (wrong_winner_issue ''HOMEPAGE_HOARDING'' ''MEDIUM''
                               (winner_page # take 2 specific_pages)
                               (no_metadata\<lparr>md_query := Some qry,
                                  md_winner_type := Some ''homepage'',
                                  md_expected_type := Some (classified_type (hd specific_pages)),
                                  md_impressions := Some (row_impressions winner),
                                  md_clicks := Some (row_clicks winner)\<rparr>))
                  else None)
         else None)"

definition geographic_mismatch ::
  "string \<Rightarrow> bool \<Rightarrow> gsc_row \<Rightarrow> page_classification list \<Rightarrow> issue option" where
  "geographic_mismatch qry has_local winner classifications =
     (let winner_page = row_page_class winner
      in if has_local \<and> classified_type winner_page = ''location''
         then (case extract_city_from_query qry of
                 None \<Rightarrow> None
               | Some query_city \<Rightarrow>
                   if query_city = [] then None
                   else (let query_city_norm = normalize_geo query_city;
                             winner_city_norm =
                               (if geo_node winner_page \<noteq> [] then normalize_geo (geo_node winner_page)
                                else [])
                         in if query_city_norm \<noteq> [] \<and> winner_city_norm \<noteq> []
                               \<and> query_city_norm \<noteq> winner_city_norm
                            then (let correct_pages =
                                        filter (\<lambda>pc. classified_type pc = ''location''
                                                  \<and> normalize_geo (geo_node pc) = query_city_norm)
                                          classifications
                                  in if correct_pages \<noteq> []
                                     then Some (wrong_winner_issue ''GEOGRAPHIC_MISMATCH'' ''HIGH''
                                                  [winner_page, hd correct_pages]
                                                  (no_metadata\<lparr>md_query := Some qry,
                                                     md_query_city := Some query_city,
                                                     md_winner_city := Some (geo_node winner_page),
                                                     md_correct_city := Some (geo_node (hd correct_pages)),
                                                     md_impressions := Some (row_impressions winner),
                                                     md_clicks := Some (row_clicks winner)\<rparr>))
                                     else None)
                            else None))
         else None)"

text \<open>\<open>_detect_wrong_winner\<close>: the first mismatch that is found. The parameter
  \<open>all_rows\<close> is not read by the code.\<close>

definition detect_wrong_winner ::
  "constants \<Rightarrow> string \<Rightarrow> gsc_row \<Rightarrow> gsc_row list \<Rightarrow> page_classification list \<Rightarrow> issue option" where
  "detect_wrong_winner K qry winner all_rows classifications =
     (let intent_and_local = classify_query_intent K qry;
          query_intent = fst intent_and_local;
          has_local = snd intent_and_local;
          is_plural = is_plural_query qry
      in case intent_mismatch K qry query_intent winner classifications of
           Some i \<Rightarrow> Some i
         | None \<Rightarrow>
             (case page_type_mismatch K qry is_plural winner classifications of
                Some i \<Rightarrow> Some i
              | None \<Rightarrow>
                  (case homepage_hoarding K qry winner classifications of
                     Some i \<Rightarrow> Some i
                   | None \<Rightarrow> geographic_mismatch qry has_local winner classifications)))"

text \<open>A row of the traffic source: a dictionary whose keys may be absent. The numbers are
  read with \<open>int(...)\<close> and \<open>float(...)\<close>, which leave a number as it is.\<close>

record raw_gsc_row =
  raw_query :: "string option"
  raw_page :: "string option"
  raw_clicks :: "int option"
  raw_impressions :: "int option"
  raw_position :: "rat option"

text \<open>The body of the first loop of \<open>run_phase5\<close> on one row: \<open>None\<close> where the code
  says \<open>continue\<close>. \<open>url_to_page\<close> is a dictionary comprehension, so the last
  classification with a normalized URL is the one it keeps.\<close>

definition url_to_page :: "page_classification list \<Rightarrow> string \<Rightarrow> page_classification option" where
  "url_to_page classifications = map_of (rev (map (\<lambda>pc. (normalized_url pc, pc)) classifications))"

definition ingest_row ::
  "(string \<Rightarrow> bool) \<Rightarrow> constants \<Rightarrow> page_classification list \<Rightarrow> string option \<Rightarrow> string option
   \<Rightarrow> raw_gsc_row \<Rightarrow> gsc_row option" where
  "ingest_row hostchk K classifications brand_name homepage_title row =
     (let qry = py_lower (py_strip (case raw_query row of None \<Rightarrow> [] | Some q \<Rightarrow> q));
          page_url = py_strip (case raw_page row of None \<Rightarrow> [] | Some p \<Rightarrow> p);
          clicks = (case raw_clicks row of None \<Rightarrow> 0 | Some n \<Rightarrow> n);
          impressions = (case raw_impressions row of None \<Rightarrow> 0 | Some n \<Rightarrow> n);
          position = (case raw_position row of None \<Rightarrow> 0 | Some x \<Rightarrow> x)
      in if impressions < MIN_IMPRESSIONS_THRESHOLD K then None
         else if is_branded_query K qry brand_name homepage_title then None
         else (let normalized = normalize_full_url hostchk page_url
               in case url_to_page classifications normalized of
                    None \<Rightarrow> None
                  | Some page_class \<Rightarrow>
                      Some \<lparr>row_query = qry, row_page_url = page_url,
                            row_normalized_url = normalized, row_page_class = page_class,
                            row_clicks = clicks, row_impressions = impressions,
                            row_position = position\<rparr>))"

text \<open>\<open>query_groups\<close> is a \<open>defaultdict(list)\<close>: the rows that were kept, grouped by
  query, the queries in the order of their first row.\<close>

definition append_row :: "(string \<times> gsc_row list) list \<Rightarrow> gsc_row \<Rightarrow> (string \<times> gsc_row list) list" where
  "append_row groups r =
     AList.update (row_query r) (dict_get groups (row_query r) [] @ [r]) groups"

definition query_groups ::
  "(string \<Rightarrow> bool) \<Rightarrow> constants \<Rightarrow> page_classification list \<Rightarrow> string option \<Rightarrow> string option
   \<Rightarrow> raw_gsc_row list \<Rightarrow> (string \<times> gsc_row list) list" where
  "query_groups hostchk K classifications brand_name homepage_title gsc_data =
     foldl append_row []
       (List.map_filter (ingest_row hostchk K classifications brand_name homepage_title) gsc_data)"

text \<open>The second loop of \<open>run_phase5\<close> on one query: \<open>sorted(rows, key=impressions,
  reverse=True)\<close> is a stable sort by decreasing impressions, and the winner is its first
  row.\<close>

definition analyze_query ::
  "constants \<Rightarrow> page_classification list \<Rightarrow> string \<times> gsc_row list \<Rightarrow> issue option" where
  "analyze_query K classifications entry =
     (let qry = fst entry;
          rows = sort_key (\<lambda>r. - row_impressions r) (snd entry);
          winner = hd rows
      in detect_wrong_winner K qry winner rows classifications)"

definition run_phase5 ::
  "(string \<Rightarrow> bool) \<Rightarrow> constants \<Rightarrow> page_classification list \<Rightarrow> raw_gsc_row list
   \<Rightarrow> string option \<Rightarrow> string option \<Rightarrow> issue list" where
  "run_phase5 hostchk K classifications gsc_data brand_name homepage_title =
     (if gsc_data = [] then []
      else List.map_filter (analyze_query K classifications)
             (query_groups hostchk K classifications brand_name homepage_title gsc_data))"

text \<open>Tables, pages and rows for the concrete evaluations of this phase: a product page
  that wins the plural query \<open>dance shoes\<close> over the category page.\<close>

definition example_constants :: constants where
  "example_constants =
     \<lparr>SLUG_STOP_WORDS = [''the'', ''and'', ''for''],
      INTENT_MARKERS = [(''transactional'', [''buy'', ''price'']), (''informational'', [''how to''])],
      GEO_MODIFIERS = [''near me'', '' in ''],
      BRANDED_QUERY_INDICATORS = [''inc''],
      MIN_IMPRESSIONS_THRESHOLD = 10\<rparr>"

definition jazz_shoe_page :: page_classification where
  "jazz_shoe_page =
     (example_page 1 ''/product/jazz-shoe'' ''product'')
       \<lparr>classified_type := ''product'', slug_tokens_json := [''jazz'', ''shoe'']\<rparr>"

definition dance_shoes_page :: page_classification where
  "dance_shoes_page =
     (example_page 2 ''/product-category/dance-shoes'' ''product-category'')
       \<lparr>classified_type := ''category_woo'', slug_tokens_json := [''dance'', ''shoes'']\<rparr>"

definition dance_shoes_rows :: "raw_gsc_row list" where
  "dance_shoes_rows =
     [\<lparr>raw_query = Some ''dance shoes'',
       raw_page = Some ''https://example.com/product-category/dance-shoes/'',
       raw_clicks = Some 1, raw_impressions = Some 100, raw_position = Some 9\<rparr>,
      \<lparr>raw_query = Some ''Dance Shoes '',
       raw_page = Some ''https://example.com/product/jazz-shoe/'',
       raw_clicks = Some 5, raw_impressions = Some 500, raw_position = Some 3\<rparr>]"

section \<open>seo/cannibalization/phase2\_safe\_filters.py: \<open>run_phase2\<close>\<close>

text \<open>\<open>run_phase2\<close>. \<open>page_by_id\<close> is a dictionary comprehension: one page for each
  page id, the ids in the order of their first occurrence. The pairs are visited with
  \<open>i < j\<close>, the inner index running first, and the first exception leaves the loop.\<close>

definition page_by_id :: "page_classification list \<Rightarrow> (nat \<times> page_classification) list" where
  "page_by_id classifications =
     foldl (\<lambda>d pc. AList.update (page_id pc) pc d) [] classifications"

fun pairs_of :: "'a list \<Rightarrow> ('a \<times> 'a) list" where
  "pairs_of [] = []"
| "pairs_of (x # xs) = map (Pair x) xs @ pairs_of xs"

fun collect_safe_pairs ::
  "(string \<Rightarrow> bool) \<Rightarrow> string list \<Rightarrow> string list
   \<Rightarrow> (page_classification \<times> page_classification) list \<Rightarrow> nat set list
   \<Rightarrow> py_error + nat set list" where
  "collect_safe_pairs hostchk stop_words legacy_sfx [] safe_pairs = Inr safe_pairs"
| "collect_safe_pairs hostchk stop_words legacy_sfx (ab # rest) safe_pairs =
     (case is_safe_pair hostchk stop_words legacy_sfx (fst ab) (snd ab) of
        Inl e \<Rightarrow> Inl e
      | Inr safe \<Rightarrow>
          collect_safe_pairs hostchk stop_words legacy_sfx rest
            (if safe then safe_pairs @ [{page_id (fst ab), page_id (snd ab)}] else safe_pairs))"

definition run_phase2 ::
  "(string \<Rightarrow> bool) \<Rightarrow> string list \<Rightarrow> string list \<Rightarrow> page_classification list
   \<Rightarrow> py_error + nat set set" where
  "run_phase2 hostchk stop_words legacy_sfx classifications =
     (case collect_safe_pairs hostchk stop_words legacy_sfx
             (pairs_of (map snd (page_by_id classifications))) [] of
        Inl e \<Rightarrow> Inl e
      | Inr safe_pairs \<Rightarrow> Inr (set safe_pairs))"

section \<open>seo/cannibalization/pipeline.py\<close>

text \<open>
  \<open>run_analysis\<close> works on the database, on the traffic source and on three phases whose
  modules are not among the sources (\<open>phase3_static_detect\<close>, \<open>phase4_gsc_validate\<close>,
  \<open>phase7_fix\<close>). They are the environment of the run: what each of them returns, or the
  exception it raises. An exception is the \<open>ValueError\<close> of a phase of this development
  or an exception of the environment with its message.
\<close>

datatype failure = Phase_error py_error | Raised string

datatype traffic = Import_error | Fetch_raised string | Fetched "raw_gsc_row list"

record environment =
  env_site_found :: bool
  env_phase1 :: "failure + page_classification list"
  env_traffic :: traffic
  env_brand_name :: string
  env_homepage_title :: string
  env_phase3 :: "page_classification list \<Rightarrow> nat set set \<Rightarrow> failure + issue list"
  env_phase4 ::
    "page_classification list \<Rightarrow> raw_gsc_row list \<Rightarrow> string \<Rightarrow> string \<Rightarrow> failure + issue list"
  env_upgrade_static_issues :: "issue list \<Rightarrow> issue list \<Rightarrow> failure + issue list"
  env_phase7 :: "cluster list \<Rightarrow> failure + unit"
  env_save_clusters :: "cluster list \<Rightarrow> failure + unit"

text \<open>The \<open>AnalysisRun\<close> row: the fields that \<open>run_analysis\<close> writes. The dates of the
  GSC range are kept as the number of days of the range, the time stamps are left out.\<close>

record analysis_run =
  run_status :: string
  run_gsc_connected :: bool
  run_gsc_days :: "nat option"
  run_total_pages_analyzed :: nat
  run_total_clusters_found :: nat
  run_search_conflict_count :: nat
  run_site_duplication_count :: nat
  run_wrong_winner_count :: nat
  run_confirmed_count :: nat
  run_potential_count :: nat
  run_wrong_winner_badge_count :: nat
  run_error :: "failure option"

text \<open>\<open>AnalysisRun.objects.create(site=site, status='running', gsc_connected=include_gsc)\<close>,
  the other fields at their defaults; \<open>mark_completed\<close> and \<open>mark_failed\<close>.\<close>

definition create_run :: "bool \<Rightarrow> analysis_run" where
  "create_run include_gsc =
     \<lparr>run_status = ''running'', run_gsc_connected = include_gsc, run_gsc_days = None,
      run_total_pages_analyzed = 0, run_total_clusters_found = 0,
      run_search_conflict_count = 0, run_site_duplication_count = 0,
      run_wrong_winner_count = 0, run_confirmed_count = 0, run_potential_count = 0,
      run_wrong_winner_badge_count = 0, run_error = None\<rparr>"

definition mark_completed :: "analysis_run \<Rightarrow> analysis_run" where
  "mark_completed r = r\<lparr>run_status := ''completed''\<rparr>"

definition mark_failed :: "failure \<Rightarrow> analysis_run \<Rightarrow> analysis_run" where
  "mark_failed e r = r\<lparr>run_status := ''failed'', run_error := Some e\<rparr>"

text \<open>\<open>_fetch_gsc_data\<close>: an \<open>ImportError\<close> and every other exception of the traffic
  source end in the empty list.\<close>

definition fetch_gsc_data :: "traffic \<Rightarrow> raw_gsc_row list" where
  "fetch_gsc_data t = (case t of Import_error \<Rightarrow> [] | Fetch_raised msg \<Rightarrow> [] | Fetched rows \<Rightarrow> rows)"

text \<open>The issues of a run: the static issues, the GSC issues and the wrong-winner issues, with
  the run as the phases leave it.\<close>

record run_issues =
  static_issues :: "issue list"
  gsc_issues :: "issue list"
  wrong_winner_issues :: "issue list"
  issues_run :: analysis_run

text \<open>Phases 4 and 5 of \<open>run_analysis\<close>: the block under \<open>if include_gsc\<close>.\<close>

definition gsc_phases ::
  "(string \<Rightarrow> bool) \<Rightarrow> constants \<Rightarrow> environment \<Rightarrow> bool \<Rightarrow> nat
   \<Rightarrow> page_classification list \<Rightarrow> issue list \<Rightarrow> analysis_run \<Rightarrow> failure + run_issues" where
  "gsc_phases hostchk K env include_gsc gsc_days classifications static0 r0 =
     (let none = \<lparr>static_issues = static0, gsc_issues = [], wrong_winner_issues = [],
                  issues_run = r0\<rparr>
      in if include_gsc
         then (let gsc_data = fetch_gsc_data (env_traffic env)
               in if gsc_data \<noteq> []
                  then (let r1 = r0\<lparr>run_gsc_days := Some gsc_days\<rparr>
                        in case env_phase4 env classifications gsc_data
                                  (env_brand_name env) (env_homepage_title env) of
                             Inl e \<Rightarrow> Inl e
                           | Inr gsc \<Rightarrow>
                               (case env_upgrade_static_issues env static0 gsc of
                                  Inl e \<Rightarrow> Inl e
                                | Inr static1 \<Rightarrow>
                                    Inr \<lparr>static_issues = static1, gsc_issues = gsc,
                                         wrong_winner_issues =
                                           run_phase5 hostchk K classifications gsc_data
                                             (Some (env_brand_name env))
                                             (Some (env_homepage_title env)),
                                         issues_run = r1\<rparr>))
                  else Inr none)
         else Inr none)"

text \<open>The counts of the saved run.\<close>

definition count_where :: "('a \<Rightarrow> bool) \<Rightarrow> 'a list \<Rightarrow> nat" where
  "count_where P xs = length (filter P xs)"

definition save_counts :: "cluster list \<Rightarrow> analysis_run \<Rightarrow> analysis_run" where
  "save_counts clustered r =
     r\<lparr>run_total_clusters_found := length clustered,
       run_search_conflict_count := count_where (\<lambda>c. bucket c = Some ''SEARCH_CONFLICT'') clustered,
       run_site_duplication_count := count_where (\<lambda>c. bucket c = Some ''SITE_DUPLICATION'') clustered,
       run_wrong_winner_count := count_where (\<lambda>c. bucket c = Some ''WRONG_WINNER'') clustered,
       run_confirmed_count := count_where (\<lambda>c. badge c = Some ''CONFIRMED'') clustered,
       run_potential_count := count_where (\<lambda>c. badge c = Some ''POTENTIAL'') clustered,
       run_wrong_winner_badge_count := count_where (\<lambda>c. badge c = Some ''WRONG_WINNER'') clustered\<rparr>"

text \<open>The body of the \<open>try\<close> block of \<open>run_analysis\<close>: the run it returns, or the
  exception with the run as it was when the exception was raised.\<close>

definition run_phases ::
  "(string \<Rightarrow> bool) \<Rightarrow> constants \<Rightarrow> string list \<Rightarrow> environment \<Rightarrow> bool \<Rightarrow> nat
   \<Rightarrow> analysis_run \<Rightarrow> (failure \<times> analysis_run) + analysis_run" where
  "run_phases hostchk K legacy_sfx env include_gsc gsc_days r0 =
     (case env_phase1 env of
        Inl e \<Rightarrow> Inl (e, r0)
      | Inr classifications \<Rightarrow>
          (let r1 = r0\<lparr>run_total_pages_analyzed := length classifications\<rparr>
           in if classifications = []
              then Inr (mark_failed (Raised ''No pages found to analyze'') r1)
              else (case run_phase2 hostchk (SLUG_STOP_WORDS K) legacy_sfx classifications of
                      Inl e \<Rightarrow> Inl (Phase_error e, r1)
                    | Inr safe_pairs \<Rightarrow>
                        (case env_phase3 env classifications safe_pairs of
                           Inl e \<Rightarrow> Inl (e, r1)
                         | Inr static0 \<Rightarrow>
                             (case gsc_phases hostchk K env include_gsc gsc_days
                                     classifications static0 r1 of
                                Inl e \<Rightarrow>
                                  Inl (e, if include_gsc \<and> fetch_gsc_data (env_traffic env) \<noteq> []
                                          then r1\<lparr>run_gsc_days := Some gsc_days\<rparr> else r1)
                              | Inr found \<Rightarrow>
                                  (let r2 = issues_run found;
                                       all_issues = static_issues found @ gsc_issues found
                                                    @ wrong_winner_issues found;
                                       clustered_issues = run_phase6 hostchk legacy_sfx all_issues
                                   in case env_phase7 env clustered_issues of
                                        Inl e \<Rightarrow> Inl (e, r2)
                                      | Inr fix_plan \<Rightarrow>
                                          (case env_save_clusters env clustered_issues of
                                             Inl e \<Rightarrow> Inl (e, r2)
                                           | Inr saved \<Rightarrow>
                                               Inr (mark_completed
                                                      (save_counts clustered_issues r2)))))))))"

text \<open>\<open>run_analysis\<close>: no run is created for a site that is not found; an exception of the
  \<open>try\<close> block marks the run as failed and is raised again.\<close>

datatype outcome = Site_not_found | Returned analysis_run | Reraised failure analysis_run

definition run_analysis ::
  "(string \<Rightarrow> bool) \<Rightarrow> constants \<Rightarrow> string list \<Rightarrow> environment \<Rightarrow> bool \<Rightarrow> nat \<Rightarrow> outcome" where
  "run_analysis hostchk K legacy_sfx env include_gsc gsc_days =
     (if \<not> env_site_found env then Site_not_found
      else (case run_phases hostchk K legacy_sfx env include_gsc gsc_days (create_run include_gsc) of
              Inr r \<Rightarrow> Returned r
            | Inl er \<Rightarrow> Reraised (fst er) (mark_failed (fst er) (snd er))))"

text \<open>The run of an outcome, if there is one.\<close>

definition outcome_run :: "outcome \<Rightarrow> analysis_run option" where
  "outcome_run out =
     (case out of Site_not_found \<Rightarrow> None | Returned r \<Rightarrow> Some r | Reraised e r \<Rightarrow> Some r)"

text \<open>An environment for the concrete evaluations: a site of two pages whose traffic source
  raises, with phases 3, 4 and 7 finding nothing.\<close>

definition failing_traffic_env :: environment where
  "failing_traffic_env =
     \<lparr>env_site_found = True,
      env_phase1 = Inr [hub_page, spoke_page],
      env_traffic = Fetch_raised ''quota exceeded'',
      env_brand_name = ''Example'',
      env_homepage_title = ''Example'',
      env_phase3 = (\<lambda>classifications safe_pairs. Inr []),
      env_phase4 = (\<lambda>classifications gsc_data brand_name homepage_title. Inr []),
      env_upgrade_static_issues = (\<lambda>static gsc. Inr static),
      env_phase7 = (\<lambda>clustered. Inr ()),
      env_save_clusters = (\<lambda>clustered. Inr ())\<rparr>"

section \<open>Properties\<close>

subsection \<open>Legacy suffixes\<close>

lemma strip_legacy_suffix_fixed:
  assumes "\<not> is_legacy_variant hostchk legacy_sfx r"
  shows "strip_legacy_suffix hostchk legacy_sfx r = r"
proof (cases "r = [] \<or> get_path_parts hostchk r = []")
  case True
  then show ?thesis
    by (auto simp: strip_legacy_suffix_def)
next
  case False
  then have slug: "get_slug_last hostchk r = last (get_path_parts hostchk r)"
    by (simp add: get_slug_last_def)
  from assms False slug
  have "\<forall>sfx \<in> set legacy_sfx. \<not> endswith (last (get_path_parts hostchk r)) sfx"
    by (auto simp: is_legacy_variant_def list_ex_iff)
  then have "find (\<lambda>sfx. endswith (last (get_path_parts hostchk r)) sfx) legacy_sfx = None"
    by (simp add: find_None_iff)
  with False show ?thesis
    by (simp add: strip_legacy_suffix_def)
qed

text \<open>
  C9, as the code has it. \<open>strip_legacy_suffix\<close> removes one legacy suffix, the first of
  \<open>LEGACY_SUFFIXES\<close> that the last slug ends with, and returns. Stripping twice equals
  stripping once for every URL whose stripped form is no longer a legacy variant
  (\<open>is_legacy_variant\<close> is false on it), whatever the suffix table.
\<close>

theorem strip_legacy_suffix_idempotent_when_clean:
  assumes "\<not> is_legacy_variant hostchk legacy_sfx (strip_legacy_suffix hostchk legacy_sfx u)"
  shows "strip_legacy_suffix hostchk legacy_sfx (strip_legacy_suffix hostchk legacy_sfx u)
         = strip_legacy_suffix hostchk legacy_sfx u"
  using assms by (rule strip_legacy_suffix_fixed)

theorem strip_legacy_suffix_idempotent_when_clean_witness:
  "\<not> is_legacy_variant (\<lambda>h. True) LEGACY_SUFFIXES
       (strip_legacy_suffix (\<lambda>h. True) LEGACY_SUFFIXES ''/services/event-planning-old/'')
   \<and> strip_legacy_suffix (\<lambda>h. True) LEGACY_SUFFIXES ''/services/event-planning-old/''
       = ''/services/event-planning''
   \<and> strip_legacy_suffix (\<lambda>h. True) LEGACY_SUFFIXES
       (strip_legacy_suffix (\<lambda>h. True) LEGACY_SUFFIXES ''/services/event-planning-old/'')
       = ''/services/event-planning''"
proof -
  have v: "strip_legacy_suffix (\<lambda>h. True) LEGACY_SUFFIXES ''/services/event-planning-old/''
           = ''/services/event-planning''"
    by code_simp
  have h: "\<not> is_legacy_variant (\<lambda>h. True) LEGACY_SUFFIXES
              (strip_legacy_suffix (\<lambda>h. True) LEGACY_SUFFIXES ''/services/event-planning-old/'')"
    unfolding v by code_simp
  from strip_legacy_suffix_idempotent_when_clean [OF h] h v show ?thesis
    by simp
qed

text \<open>
  C9 as stated fails: a slug that carries two legacy suffixes loses one of them at each
  application. \<open>/page-old-old\<close> becomes \<open>/page-old\<close>, and that becomes \<open>/page\<close>.
\<close>

theorem strip_legacy_suffix_not_idempotent:
  "strip_legacy_suffix (\<lambda>h. True) LEGACY_SUFFIXES
     (strip_legacy_suffix (\<lambda>h. True) LEGACY_SUFFIXES ''/page-old-old'')
   \<noteq> strip_legacy_suffix (\<lambda>h. True) LEGACY_SUFFIXES ''/page-old-old''"
proof -
  have a: "strip_legacy_suffix (\<lambda>h. True) LEGACY_SUFFIXES ''/page-old-old'' = ''/page-old''"
    by code_simp
  have b: "strip_legacy_suffix (\<lambda>h. True) LEGACY_SUFFIXES ''/page-old'' = ''/page''"
    by code_simp
  show ?thesis unfolding a b by simp
qed

subsection \<open>Clustering: the size cap\<close>

lemma length_split_large_cluster: "length (split_large_cluster ps k) \<le> MAX_CLUSTER_SIZE"
  by (simp add: split_large_cluster_def Let_def)

lemma cluster_result_capped:
  "page_count (cluster_result kc) \<le> MAX_CLUSTER_SIZE
   \<and> length (out_pages (cluster_result kc)) = page_count (cluster_result kc)"
  by (simp add: cluster_result_def Let_def length_split_large_cluster)

text \<open>
  C6. Every cluster that \<open>run_phase6\<close> returns has \<open>page_count\<close> at most 15, and
  \<open>page_count\<close> is the length of its page list. A merged page set of at most 15 pages is
  kept as it is; a larger one goes through \<open>_split_large_cluster\<close>, whose two results are
  both slices \<open>[:MAX_CLUSTER_SIZE]\<close>.
\<close>

theorem cluster_size_cap:
  "\<forall>c \<in> set (run_phase6 hostchk legacy_sfx all_issues).
     page_count c \<le> 15 \<and> length (out_pages c) = page_count c"
proof
  fix c assume "c \<in> set (run_phase6 hostchk legacy_sfx all_issues)"
  then obtain kc where c: "c = cluster_result kc"
    by (auto simp: run_phase6_def split: if_splits)
  from cluster_result_capped [of kc]
  show "page_count c \<le> 15 \<and> length (out_pages c) = page_count c"
    unfolding c by (simp add: MAX_CLUSTER_SIZE_def)
qed

theorem cluster_size_cap_witness:
  "map page_count
     (run_phase6 (\<lambda>h. True) LEGACY_SUFFIXES
        [legacy_cleanup_issue ''/a-old'' pages_big_folder False])
   = [15]
   \<and> page_count
       (hd (run_phase6 (\<lambda>h. True) LEGACY_SUFFIXES
              [legacy_cleanup_issue ''/a-old'' pages_big_folder False]))
     \<le> 15"
proof -
  let ?out = "run_phase6 (\<lambda>h. True) LEGACY_SUFFIXES
                [legacy_cleanup_issue ''/a-old'' pages_big_folder False]"
  have v: "map page_count ?out = [15]"
    by code_simp
  then have "hd ?out \<in> set ?out"
    by (cases ?out) auto
  with cluster_size_cap [of "\<lambda>h. True" LEGACY_SUFFIXES
         "[legacy_cleanup_issue ''/a-old'' pages_big_folder False]"] v
  show ?thesis by blast
qed

subsection \<open>Clustering: which pages an oversize cluster keeps\<close>

lemma folder_groups_snoc: "folder_groups (ps @ [p]) = append_to_group (folder_groups ps) p"
  by (simp add: folder_groups_def)

lemma folder_groups_map_of:
  "map_of (folder_groups ps) f =
     (if f \<in> folder_root ` set ps then Some (filter (\<lambda>p. folder_root p = f) ps) else None)"
proof (induction ps arbitrary: f rule: rev_induct)
  case Nil
  then show ?case by (simp add: folder_groups_def)
next
  case (snoc p ps)
  have own: "dict_get (folder_groups ps) (folder_root p) []
             = filter (\<lambda>q. folder_root q = folder_root p) ps"
  proof (cases "folder_root p \<in> folder_root ` set ps")
    case True
    then show ?thesis by (simp add: dict_get_def snoc.IH)
  next
    case False
    then have "\<forall>q \<in> set ps. folder_root q \<noteq> folder_root p"
      by (metis imageI)
    then have "filter (\<lambda>q. folder_root q = folder_root p) ps = []"
      by (simp add: filter_empty_conv)
    with False show ?thesis by (simp add: dict_get_def snoc.IH)
  qed
  show ?case
    unfolding folder_groups_snoc append_to_group_def AList.update_conv' own
    by (auto simp: snoc.IH)
qed

lemma folder_groups_distinct: "distinct (map fst (folder_groups ps))"
proof (induction ps rule: rev_induct)
  case Nil
  then show ?case by (simp add: folder_groups_def)
next
  case (snoc p ps)
  then show ?case
    unfolding folder_groups_snoc append_to_group_def by (rule AList.distinct_update)
qed

lemma first_longest_mem: "first_longest b gs \<in> set (b # gs)"
  by (induction gs arbitrary: b) auto

lemma first_longest_max: "g \<in> set (b # gs) \<Longrightarrow> length g \<le> length (first_longest b gs)"
proof (induction gs arbitrary: b g)
  case Nil
  then show ?case by simp
next
  case (Cons a gs)
  let ?b = "if length b < length a then a else b"
  show ?case
    using Cons.IH [of g ?b] Cons.IH [of ?b ?b] Cons.prems
    by (auto split: if_splits)
qed

lemma max_by_len_mem: "gs \<noteq> [] \<Longrightarrow> max_by_len gs \<in> set gs"
  using first_longest_mem by (cases gs) (auto simp: max_by_len_def)

lemma max_by_len_max: "g \<in> set gs \<Longrightarrow> length g \<le> length (max_by_len gs)"
  using first_longest_max by (cases gs) (auto simp: max_by_len_def)

lemma folder_groups_keys:
  "map fst (folder_groups ps) = rev (remdups (rev (map folder_root ps)))"
proof (induction ps rule: rev_induct)
  case Nil
  then show ?case by (simp add: folder_groups_def)
next
  case (snoc p ps)
  have "set (rev (remdups (rev (map folder_root ps)))) = folder_root ` set ps"
    by simp
  with snoc show ?case
    unfolding folder_groups_snoc append_to_group_def AList.update_keys
    by auto
qed

lemma alist_by_keys:
  "distinct (map fst al) \<Longrightarrow> al = map (\<lambda>k. (k, the (map_of al k))) (map fst al)"
proof (induction al)
  case Nil
  then show ?case by simp
next
  case (Cons kv al)
  obtain k v where kv: "kv = (k, v)" by (cases kv)
  from Cons.prems kv have notin: "k \<notin> fst ` set al" and d: "distinct (map fst al)"
    by auto
  have "map (\<lambda>k'. (k', the (map_of (kv # al) k'))) (map fst al)
        = map (\<lambda>k'. (k', the (map_of al k'))) (map fst al)"
    using notin kv by (intro map_cong) auto
  with Cons.IH [OF d] kv show ?case
    by simp
qed

lemma folder_groups_eq:
  "folder_groups ps =
     map (\<lambda>f. (f, filter (\<lambda>p. folder_root p = f) ps)) (rev (remdups (rev (map folder_root ps))))"
proof -
  have "folder_groups ps
        = map (\<lambda>k. (k, the (map_of (folder_groups ps) k))) (map fst (folder_groups ps))"
    using folder_groups_distinct by (rule alist_by_keys)
  also have "\<dots> = map (\<lambda>k. (k, the (map_of (folder_groups ps) k)))
                     (rev (remdups (rev (map folder_root ps))))"
    by (simp only: folder_groups_keys)
  also have "\<dots> = map (\<lambda>f. (f, filter (\<lambda>p. folder_root p = f) ps))
                     (rev (remdups (rev (map folder_root ps))))"
    by (intro map_cong) (auto simp: folder_groups_map_of)
  finally show ?thesis .
qed

lemma folder_groups_values:
  "map snd (folder_groups ps) =
     map (\<lambda>f. filter (\<lambda>p. folder_root p = f) ps) (rev (remdups (rev (map folder_root ps))))"
  by (subst folder_groups_eq) (simp add: comp_def)

lemma first_longest_split:
  "(first_longest b gs = b \<and> (\<forall>g \<in> set gs. length g \<le> length b))
   \<or> (\<exists>pre post. gs = pre @ first_longest b gs # post
         \<and> length b < length (first_longest b gs)
         \<and> (\<forall>g \<in> set pre. length g < length (first_longest b gs))
         \<and> (\<forall>g \<in> set post. length g \<le> length (first_longest b gs)))"
proof (induction gs arbitrary: b)
  case Nil
  then show ?case by simp
next
  case (Cons a gs)
  let ?b = "if length a > length b then a else b"
  let ?out = "first_longest ?b gs"
  have out: "first_longest b (a # gs) = ?out" by simp
  from Cons.IH [of ?b] consider
      (stay) "?out = ?b" "\<forall>g \<in> set gs. length g \<le> length ?b"
    | (move) pre post where "gs = pre @ ?out # post" "length ?b < length ?out"
        "\<forall>g \<in> set pre. length g < length ?out" "\<forall>g \<in> set post. length g \<le> length ?out"
    by blast
  then show ?case
  proof cases
    case stay
    show ?thesis
    proof (cases "length a > length b")
      case True
      with stay have "a # gs = [] @ first_longest b (a # gs) # gs"
        "length b < length (first_longest b (a # gs))"
        "\<forall>g \<in> set gs. length g \<le> length (first_longest b (a # gs))"
        by (simp_all del: first_longest.simps add: out)
      then show ?thesis
        by (metis empty_iff list.set(1))
    next
      case False
      with stay show ?thesis by auto
    qed
  next
    case move
    have "a # gs = (a # pre) @ first_longest b (a # gs) # post"
      using move(1) by (simp del: first_longest.simps add: out)
    moreover have "length b < length (first_longest b (a # gs))"
      using move(2) by (simp del: first_longest.simps add: out split: if_splits)
    moreover have "\<forall>g \<in> set (a # pre). length g < length (first_longest b (a # gs))"
      using move(2,3) by (simp del: first_longest.simps add: out split: if_splits)
    moreover have "\<forall>g \<in> set post. length g \<le> length (first_longest b (a # gs))"
      using move(4) by (simp del: first_longest.simps add: out)
    ultimately show ?thesis by blast
  qed
qed

lemma first_longest_first:
  "\<exists>pre post. b # gs = pre @ first_longest b gs # post
       \<and> (\<forall>g \<in> set pre. length g < length (first_longest b gs))
       \<and> (\<forall>g \<in> set post. length g \<le> length (first_longest b gs))"
proof -
  from first_longest_split [of b gs] consider
      (stay) "first_longest b gs = b" "\<forall>g \<in> set gs. length g \<le> length b"
    | (move) pre post where "gs = pre @ first_longest b gs # post"
        "length b < length (first_longest b gs)"
        "\<forall>g \<in> set pre. length g < length (first_longest b gs)"
        "\<forall>g \<in> set post. length g \<le> length (first_longest b gs)"
    by blast
  then show ?thesis
  proof cases
    case stay
    have "b # gs = [] @ first_longest b gs # gs"
      using stay(1) by simp
    moreover have "\<forall>g \<in> set []. length g < length (first_longest b gs)"
      by simp
    moreover have "\<forall>g \<in> set gs. length g \<le> length (first_longest b gs)"
      using stay by simp
    ultimately show ?thesis by blast
  next
    case move
    have "b # gs = (b # pre) @ first_longest b gs # post"
      using move(1) by simp
    moreover have "\<forall>g \<in> set (b # pre). length g < length (first_longest b gs)"
      using move(2,3) by simp
    ultimately show ?thesis using move(4) by blast
  qed
qed

lemma max_by_len_first:
  assumes "gs \<noteq> []"
  shows "\<exists>pre post. gs = pre @ max_by_len gs # post
           \<and> (\<forall>g \<in> set pre. length g < length (max_by_len gs))
           \<and> (\<forall>g \<in> set post. length g \<le> length (max_by_len gs))"
proof -
  from assms obtain b rest where gs: "gs = b # rest" by (cases gs) auto
  show ?thesis
    unfolding gs max_by_len_def list.case by (rule first_longest_first)
qed

lemma split_large_cluster_cases:
  "split_large_cluster ps k =
     (if length (map snd (folder_groups ps)) > 1
         \<and> (\<forall>g \<in> set (map snd (folder_groups ps)). length g \<le> 15)
      then max_by_len (map snd (folder_groups ps)) else take 15 ps)"
proof -
  let ?gs = "map snd (folder_groups ps)"
  let ?P = "length ?gs > 1 \<and> (\<forall>g \<in> set ?gs. length g \<le> 15)"
  have code: "split_large_cluster ps k =
                (if length ?gs > 1 \<and> length (max_by_len ?gs) \<le> 15
                 then max_by_len ?gs else take 15 ps)"
    using max_by_len_max [of "max_by_len ?gs" ?gs]
    by (simp add: split_large_cluster_def Let_def MAX_CLUSTER_SIZE_def)
  have "(length ?gs > 1 \<and> length (max_by_len ?gs) \<le> 15) = ?P"
  proof (cases "length ?gs > 1")
    case True
    then have ne: "?gs \<noteq> []" by auto
    have "(length (max_by_len ?gs) \<le> 15) = (\<forall>g \<in> set ?gs. length g \<le> 15)"
      using max_by_len_mem [OF ne] max_by_len_max [of _ ?gs] by (meson le_trans)
    with True show ?thesis by simp
  next
    case False
    then show ?thesis by simp
  qed
  with code show ?thesis by simp
qed

lemma out_pages_cluster_result:
  "out_pages (cluster_result kc) =
     (if length (acc_pages (snd kc)) > 15
      then split_large_cluster (map snd (acc_pages (snd kc))) (fst kc)
      else map snd (acc_pages (snd kc)))"
  by (simp add: cluster_result_def Let_def MAX_CLUSTER_SIZE_def)

lemma cluster_key_cluster_result: "cluster_key (cluster_result kc) = fst kc"
  by (simp add: cluster_result_def Let_def)

lemma run_phase6_results:
  assumes "c \<in> set (run_phase6 hostchk legacy_sfx all_issues)"
  shows "\<exists>kc \<in> set (build_cluster_map hostchk legacy_sfx all_issues). c = cluster_result kc"
  using assms by (auto simp: run_phase6_def split: if_splits)

text \<open>
  C7, as the code has it. Let \<open>ps\<close> be the merged pages of a cluster, in the order in
  which the issues brought them, and let the folder groups be the pages of each
  \<open>folder_root\<close>, in the order in which the folder roots first occur in \<open>ps\<close>. A cluster
  of at most 15 pages keeps \<open>ps\<close>. A larger one keeps, when there are at least two folder
  groups and every group has at most 15 pages, the first of the groups of the greatest
  size: every group before it is strictly smaller and no group after it is larger. In
  every other case (one group only, or some group of more than 15 pages) it keeps the
  first 15 pages of \<open>ps\<close>.
\<close>

theorem oversize_cluster_keeps_first_largest_group:
  "\<forall>c \<in> set (run_phase6 hostchk legacy_sfx all_issues).
     \<exists>kc \<in> set (build_cluster_map hostchk legacy_sfx all_issues).
       let ps = map snd (acc_pages (snd kc));
           gs = map (\<lambda>f. filter (\<lambda>p. folder_root p = f) ps)
                    (rev (remdups (rev (map folder_root ps))))
       in cluster_key c = fst kc \<and>
          (if length ps \<le> 15 then out_pages c = ps
           else if length gs > 1 \<and> (\<forall>g \<in> set gs. length g \<le> 15)
           then \<exists>pre post. gs = pre @ out_pages c # post
                  \<and> (\<forall>g \<in> set pre. length g < length (out_pages c))
                  \<and> (\<forall>g \<in> set post. length g \<le> length (out_pages c))
           else out_pages c = take 15 ps)"
proof
  fix c assume "c \<in> set (run_phase6 hostchk legacy_sfx all_issues)"
  then obtain kc where kc: "kc \<in> set (build_cluster_map hostchk legacy_sfx all_issues)"
    and c: "c = cluster_result kc"
    using run_phase6_results by blast
  let ?ps = "map snd (acc_pages (snd kc))"
  let ?gs = "map (\<lambda>f. filter (\<lambda>p. folder_root p = f) ?ps)
               (rev (remdups (rev (map folder_root ?ps))))"
  have gs: "map snd (folder_groups ?ps) = ?gs"
    by (rule folder_groups_values)
  have key: "cluster_key c = fst kc"
    unfolding c by (rule cluster_key_cluster_result)
  have small: "out_pages c = ?ps" if "length ?ps \<le> 15"
    unfolding c out_pages_cluster_result using that by simp
  have big: "out_pages c = split_large_cluster ?ps (fst kc)" if "\<not> length ?ps \<le> 15"
    unfolding c out_pages_cluster_result using that by simp
  have first: "\<exists>pre post. ?gs = pre @ out_pages c # post
                  \<and> (\<forall>g \<in> set pre. length g < length (out_pages c))
                  \<and> (\<forall>g \<in> set post. length g \<le> length (out_pages c))"
    if "\<not> length ?ps \<le> 15" and h: "length ?gs > 1 \<and> (\<forall>g \<in> set ?gs. length g \<le> 15)"
  proof -
    from h have ne: "?gs \<noteq> []" by auto
    from h have "out_pages c = max_by_len ?gs"
      unfolding big [OF that(1)] split_large_cluster_cases gs by (rule if_P)
    with max_by_len_first [OF ne] show ?thesis by simp
  qed
  have rest: "out_pages c = take 15 ?ps"
    if "\<not> length ?ps \<le> 15" and h: "\<not> (length ?gs > 1 \<and> (\<forall>g \<in> set ?gs. length g \<le> 15))"
    using h unfolding big [OF that(1)] split_large_cluster_cases gs by (rule if_not_P)
  from key small first rest
  have "cluster_key c = fst kc \<and>
          (if length ?ps \<le> 15 then out_pages c = ?ps
           else if length ?gs > 1 \<and> (\<forall>g \<in> set ?gs. length g \<le> 15)
           then \<exists>pre post. ?gs = pre @ out_pages c # post
                  \<and> (\<forall>g \<in> set pre. length g < length (out_pages c))
                  \<and> (\<forall>g \<in> set post. length g \<le> length (out_pages c))
           else out_pages c = take 15 ?ps)"
    by presburger
  with kc show "\<exists>kc \<in> set (build_cluster_map hostchk legacy_sfx all_issues).
       let ps = map snd (acc_pages (snd kc));
           gs = map (\<lambda>f. filter (\<lambda>p. folder_root p = f) ps)
                    (rev (remdups (rev (map folder_root ps))))
       in cluster_key c = fst kc \<and>
          (if length ps \<le> 15 then out_pages c = ps
           else if length gs > 1 \<and> (\<forall>g \<in> set gs. length g \<le> 15)
           then \<exists>pre post. gs = pre @ out_pages c # post
                  \<and> (\<forall>g \<in> set pre. length g < length (out_pages c))
                  \<and> (\<forall>g \<in> set post. length g \<le> length (out_pages c))
           else out_pages c = take 15 ps)"
    unfolding Let_def by blast
qed

theorem oversize_cluster_keeps_first_largest_group_witness:
  "length pages_tied_folders = 16
   \<and> map length
        (map (\<lambda>f. filter (\<lambda>p. folder_root p = f) pages_tied_folders)
           (rev (remdups (rev (map folder_root pages_tied_folders))))) = [8, 8]
   \<and> map (map page_id \<circ> out_pages)
        (run_phase6 (\<lambda>h. True) LEGACY_SUFFIXES
           [legacy_cleanup_issue ''/a-old'' pages_tied_folders False])
      = [[1, 2, 3, 4, 5, 6, 7, 8]]
   \<and> (\<exists>pre post.
         map (\<lambda>f. filter (\<lambda>p. folder_root p = f) pages_tied_folders)
           (rev (remdups (rev (map folder_root pages_tied_folders))))
         = pre @ out_pages (hd (run_phase6 (\<lambda>h. True) LEGACY_SUFFIXES
                                  [legacy_cleanup_issue ''/a-old'' pages_tied_folders False])) # post
         \<and> (\<forall>g \<in> set pre. length g
               < length (out_pages (hd (run_phase6 (\<lambda>h. True) LEGACY_SUFFIXES
                                          [legacy_cleanup_issue ''/a-old'' pages_tied_folders False]))))
         \<and> (\<forall>g \<in> set post. length g
               \<le> length (out_pages (hd (run_phase6 (\<lambda>h. True) LEGACY_SUFFIXES
                                          [legacy_cleanup_issue ''/a-old'' pages_tied_folders False])))))"
proof -
  let ?is = "[legacy_cleanup_issue ''/a-old'' pages_tied_folders False]"
  let ?out = "run_phase6 (\<lambda>h. True) LEGACY_SUFFIXES ?is"
  let ?gs = "map (\<lambda>f. filter (\<lambda>p. folder_root p = f) pages_tied_folders)
               (rev (remdups (rev (map folder_root pages_tied_folders))))"
  have n: "length pages_tied_folders = 16"
    by code_simp
  have l: "map length ?gs = [8, 8]"
    by code_simp
  have v: "map (map page_id \<circ> out_pages) ?out = [[1, 2, 3, 4, 5, 6, 7, 8]]"
    by code_simp
  have m: "map (map snd \<circ> acc_pages \<circ> snd) (build_cluster_map (\<lambda>h. True) LEGACY_SUFFIXES ?is)
           = [pages_tied_folders]"
    by code_simp
  from v have "hd ?out \<in> set ?out"
    by (cases ?out) auto
  with oversize_cluster_keeps_first_largest_group [of "\<lambda>h. True" LEGACY_SUFFIXES ?is]
  obtain kc where kc: "kc \<in> set (build_cluster_map (\<lambda>h. True) LEGACY_SUFFIXES ?is)"
    and P: "let ps = map snd (acc_pages (snd kc));
                gs = map (\<lambda>f. filter (\<lambda>p. folder_root p = f) ps)
                         (rev (remdups (rev (map folder_root ps))))
            in cluster_key (hd ?out) = fst kc \<and>
               (if length ps \<le> 15 then out_pages (hd ?out) = ps
                else if length gs > 1 \<and> (\<forall>g \<in> set gs. length g \<le> 15)
                then \<exists>pre post. gs = pre @ out_pages (hd ?out) # post
                       \<and> (\<forall>g \<in> set pre. length g < length (out_pages (hd ?out)))
                       \<and> (\<forall>g \<in> set post. length g \<le> length (out_pages (hd ?out)))
                else out_pages (hd ?out) = take 15 ps)"
    by blast
  from kc have "(map snd \<circ> acc_pages \<circ> snd) kc
                \<in> set (map (map snd \<circ> acc_pages \<circ> snd)
                          (build_cluster_map (\<lambda>h. True) LEGACY_SUFFIXES ?is))"
    by simp
  then have ps: "map snd (acc_pages (snd kc)) = pages_tied_folders"
    unfolding m by simp
  from n have big: "\<not> length pages_tied_folders \<le> 15"
    by simp
  from l have two: "length ?gs > 1"
    using length_map [of length ?gs] by simp
  have small: "\<forall>g \<in> set ?gs. length g \<le> 15"
  proof
    fix g assume "g \<in> set ?gs"
    then have "length g \<in> set (map length ?gs)"
      by (metis image_eqI set_map)
    then show "length g \<le> 15"
      unfolding l by auto
  qed
  from P have "\<exists>pre post. ?gs = pre @ out_pages (hd ?out) # post
                 \<and> (\<forall>g \<in> set pre. length g < length (out_pages (hd ?out)))
                 \<and> (\<forall>g \<in> set post. length g \<le> length (out_pages (hd ?out)))"
    unfolding Let_def ps using big two small by presburger
  with n l v show ?thesis
    by blast
qed

text \<open>
  C7 as stated fails. With 16 pages under folder root \<open>a\<close> and one page under \<open>b\<close>, the
  cluster is oversize and the group of \<open>b\<close> has at most 15 pages, so the specification
  keeps that group. The code looks at the largest group only, finds 16 pages in it, and
  returns the first 15 pages of the cluster.
\<close>

theorem split_large_cluster_ignores_smaller_groups:
  "length pages_big_folder = 17
   \<and> spec_split_large_cluster pages_big_folder = example_pages [17..<18] ''b''
   \<and> split_large_cluster pages_big_folder ''k'' = take 15 pages_big_folder
   \<and> split_large_cluster pages_big_folder ''k'' \<noteq> spec_split_large_cluster pages_big_folder"
proof -
  have n: "length pages_big_folder = 17"
    by code_simp
  have s: "spec_split_large_cluster pages_big_folder = example_pages [17..<18] ''b''"
    by code_simp
  have c: "split_large_cluster pages_big_folder ''k'' = take 15 pages_big_folder"
    by code_simp
  have l15: "length (take 15 pages_big_folder) = 15"
    using n by simp
  have l1: "length (example_pages [17..<18] ''b'') = 1"
    by (simp add: example_pages_def)
  have "take 15 pages_big_folder \<noteq> example_pages [17..<18] ''b''"
  proof
    assume "take 15 pages_big_folder = example_pages [17..<18] ''b''"
    then have "length (take 15 pages_big_folder) = length (example_pages [17..<18] ''b'')"
      by (rule arg_cong)
    with l15 l1 show False
      by simp
  qed
  with n s c show ?thesis
    by simp
qed

subsection \<open>Clustering: bucket and badge of a merged cluster\<close>

text \<open>
  C3 does not hold of the code. \<open>run_phase6\<close> sets the bucket and the badge of a cluster from
  the first issue merged into it and never changes them (only the severity is upgraded).
  Two legacy-cleanup issues with the same cluster key, the first not validated by GSC and
  the second validated, give a cluster in bucket \<open>SITE_DUPLICATION\<close> with badge
  \<open>POTENTIAL\<close>; the same two issues in the other order give \<open>SEARCH_CONFLICT\<close> and
  \<open>CONFIRMED\<close>.
\<close>

theorem bucket_depends_on_merge_order:
  "gsc_validated validated_issue
   \<and> map cluster_key (run_phase6 (\<lambda>h. True) LEGACY_SUFFIXES [unvalidated_issue, validated_issue])
     = [''LEGACY_CLEANUP:foo'']
   \<and> map bucket (run_phase6 (\<lambda>h. True) LEGACY_SUFFIXES [unvalidated_issue, validated_issue])
     = [Some ''SITE_DUPLICATION'']
   \<and> map badge (run_phase6 (\<lambda>h. True) LEGACY_SUFFIXES [unvalidated_issue, validated_issue])
     = [Some ''POTENTIAL'']
   \<and> map bucket (run_phase6 (\<lambda>h. True) LEGACY_SUFFIXES [validated_issue, unvalidated_issue])
     = [Some ''SEARCH_CONFLICT'']
   \<and> map badge (run_phase6 (\<lambda>h. True) LEGACY_SUFFIXES [validated_issue, unvalidated_issue])
     = [Some ''CONFIRMED'']"
proof -
  have a: "gsc_validated validated_issue"
    by code_simp
  have b: "map cluster_key (run_phase6 (\<lambda>h. True) LEGACY_SUFFIXES [unvalidated_issue, validated_issue])
           = [''LEGACY_CLEANUP:foo'']"
    by code_simp
  have c: "map bucket (run_phase6 (\<lambda>h. True) LEGACY_SUFFIXES [unvalidated_issue, validated_issue])
           = [Some ''SITE_DUPLICATION'']"
    by code_simp
  have d: "map badge (run_phase6 (\<lambda>h. True) LEGACY_SUFFIXES [unvalidated_issue, validated_issue])
           = [Some ''POTENTIAL'']"
    by code_simp
  have e: "map bucket (run_phase6 (\<lambda>h. True) LEGACY_SUFFIXES [validated_issue, unvalidated_issue])
           = [Some ''SEARCH_CONFLICT'']"
    by code_simp
  have f: "map badge (run_phase6 (\<lambda>h. True) LEGACY_SUFFIXES [validated_issue, unvalidated_issue])
           = [Some ''CONFIRMED'']"
    by code_simp
  from a b c d e f show ?thesis
    by simp
qed

subsection \<open>Safe pairs\<close>

lemma py_error_unique: "(e :: py_error) = e'"
  by (cases e, cases e') simp

lemma slug_similarity_commute:
  "slug_similarity hostchk stop_words u1 u2 = slug_similarity hostchk stop_words u2 u1"
  by (auto simp: slug_similarity_def Int_commute Un_commute py_error_unique split: sum.splits)

lemma is_legacy_pair_commute:
  "is_legacy_pair hostchk legacy_sfx p q = is_legacy_pair hostchk legacy_sfx q p"
  by (auto simp: is_legacy_pair_def Let_def)

lemma are_product_siblings_commute:
  "are_product_siblings hostchk stop_words legacy_sfx a b
   = are_product_siblings hostchk stop_words legacy_sfx b a"
  unfolding are_product_siblings_def
  using slug_similarity_commute [of hostchk stop_words "normalized_path a" "normalized_path b"]
        is_legacy_pair_commute [of hostchk legacy_sfx "normalized_path a" "normalized_path b"]
  by auto

lemma are_parent_child_commute:
  "are_parent_child hostchk a b = are_parent_child hostchk b a"
  by (auto simp: are_parent_child_def)

lemma are_geographic_variants_commute:
  "are_geographic_variants a b = are_geographic_variants b a"
  by (auto simp: are_geographic_variants_def Let_def)

text \<open>
  C8. The safe-pair decision does not depend on the order of the two pages:
  \<open>_is_safe_pair(a, b)\<close> and \<open>_is_safe_pair(b, a)\<close> return the same boolean, and one raises
  exactly when the other does. This holds for each of the three filters, whatever the
  stop words and the legacy suffixes.
\<close>

theorem is_safe_pair_symmetric:
  "is_safe_pair hostchk stop_words legacy_sfx a b = is_safe_pair hostchk stop_words legacy_sfx b a"
  unfolding is_safe_pair_def
  using are_product_siblings_commute [of hostchk stop_words legacy_sfx a b]
        are_parent_child_commute [of hostchk a b]
        are_geographic_variants_commute [of a b]
  by simp

theorem is_safe_pair_symmetric_witness:
  "is_safe_pair (\<lambda>h. True) [] LEGACY_SUFFIXES hub_page spoke_page = Inr True
   \<and> is_safe_pair (\<lambda>h. True) [] LEGACY_SUFFIXES spoke_page hub_page = Inr True"
proof -
  have v: "is_safe_pair (\<lambda>h. True) [] LEGACY_SUFFIXES hub_page spoke_page = Inr True"
    by code_simp
  with is_safe_pair_symmetric [of "\<lambda>h. True" "[]" LEGACY_SUFFIXES hub_page spoke_page]
  show ?thesis
    by simp
qed

subsection \<open>Classification: the date pattern of blog posts\<close>





subsection \<open>The severity of a GSC issue\<close>

text \<open>
  C4, on the severity rule as the specification gives it. The four severities are
  exclusive and each has its own condition on the impression shares: \<open>SEVERE\<close> exactly
  when at least three rows have a share of at least \<open>0.10\<close>; otherwise \<open>HIGH\<close> exactly
  when the secondary share is at least \<open>0.35\<close>, \<open>MEDIUM\<close> exactly when it lies in
  \<open>[0.15, 0.35)\<close>, and \<open>LOW\<close> exactly when it is below \<open>0.15\<close>.
\<close>

theorem calculate_severity_rules:
  "(calculate_severity shares = ''SEVERE'')
     = (length (filter (\<lambda>s. s \<ge> 1 / 10) shares) \<ge> 3)
   \<and> (calculate_severity shares = ''HIGH'')
     = (length (filter (\<lambda>s. s \<ge> 1 / 10) shares) < 3 \<and> secondary_share shares \<ge> 35 / 100)
   \<and> (calculate_severity shares = ''MEDIUM'')
     = (length (filter (\<lambda>s. s \<ge> 1 / 10) shares) < 3
        \<and> 15 / 100 \<le> secondary_share shares \<and> secondary_share shares < 35 / 100)
   \<and> (calculate_severity shares = ''LOW'')
     = (length (filter (\<lambda>s. s \<ge> 1 / 10) shares) < 3 \<and> secondary_share shares < 15 / 100)"
  by (auto simp: calculate_severity_def)

theorem calculate_severity_rules_witness:
  "calculate_severity [40 / 100, 30 / 100, 20 / 100, 10 / 100] = ''SEVERE''
   \<and> calculate_severity [60 / 100, 40 / 100] = ''HIGH''
   \<and> calculate_severity [75 / 100, 25 / 100] = ''MEDIUM''
   \<and> calculate_severity [90 / 100, 10 / 100] = ''LOW''"
proof -
  have a: "length (filter (\<lambda>s. s \<ge> 1 / 10) [40 / 100, 30 / 100, 20 / 100, 10 / 100 :: rat]) \<ge> 3"
    by simp
  have b: "length (filter (\<lambda>s. s \<ge> 1 / 10) [60 / 100, 40 / 100 :: rat]) < 3
           \<and> secondary_share [60 / 100, 40 / 100] \<ge> 35 / 100"
    by (simp add: secondary_share_def)
  have c: "length (filter (\<lambda>s. s \<ge> 1 / 10) [75 / 100, 25 / 100 :: rat]) < 3
           \<and> 15 / 100 \<le> secondary_share [75 / 100, 25 / 100]
           \<and> secondary_share [75 / 100, 25 / 100] < 35 / 100"
    by (simp add: secondary_share_def)
  have d: "length (filter (\<lambda>s. s \<ge> 1 / 10) [90 / 100, 10 / 100 :: rat]) < 3
           \<and> secondary_share [90 / 100, 10 / 100] < 15 / 100"
    by (simp add: secondary_share_def)
  from calculate_severity_rules [of "[40 / 100, 30 / 100, 20 / 100, 10 / 100]"] a
       calculate_severity_rules [of "[60 / 100, 40 / 100]"] b
       calculate_severity_rules [of "[75 / 100, 25 / 100]"] c
       calculate_severity_rules [of "[90 / 100, 10 / 100]"] d
  show ?thesis
    by blast
qed

subsection \<open>Wrong winners: the pages of an issue\<close>

lemma in_map_filter: "y \<in> set (List.map_filter f xs) \<Longrightarrow> \<exists>x \<in> set xs. f x = Some y"
  by (auto simp: List.map_filter_def)

lemma update_set_subset: "set (AList.update k v al) \<subseteq> insert (k, v) (set al)"
  by (induction al) auto

lemma query_groups_nonempty:
  "\<forall>entry \<in> set (foldl append_row [] rs). snd entry \<noteq> []"
proof (induction rs rule: rev_induct)
  case Nil
  then show ?case by simp
next
  case (snoc r rs)
  let ?groups = "foldl append_row [] rs"
  let ?k = "row_query r"
  let ?v = "dict_get ?groups ?k [] @ [r]"
  have "set (append_row ?groups r) \<subseteq> insert (?k, ?v) (set ?groups)"
    unfolding append_row_def by (rule update_set_subset)
  with snoc show ?case
    by auto
qed

lemma hd_insort_key:
  "hd (insort_key f x ys) = (if ys = [] \<or> f x \<le> f (hd ys) then x else hd ys)"
  by (cases ys) auto

lemma hd_sort_key_first_least:
  assumes "xs \<noteq> []"
  shows "\<exists>pre post. xs = pre @ hd (sort_key f xs) # post
           \<and> (\<forall>r \<in> set pre. f (hd (sort_key f xs)) < f r)
           \<and> (\<forall>r \<in> set post. f (hd (sort_key f xs)) \<le> f r)"
  using assms
proof (induction xs)
  case Nil
  then show ?case by simp
next
  case (Cons x xs)
  show ?case
  proof (cases "xs = []")
    case True
    then have "x # xs = [] @ hd (sort_key f (x # xs)) # []"
      by simp
    then show ?thesis
      by (metis empty_iff list.set(1))
  next
    case False
    let ?w = "hd (sort_key f xs)"
    from Cons.IH [OF False] obtain pre post where
      xs: "xs = pre @ ?w # post" and
      pre: "\<forall>r \<in> set pre. f ?w < f r" and
      post: "\<forall>r \<in> set post. f ?w \<le> f r"
      by blast
    from False have ne: "sort_key f xs \<noteq> []"
      by (metis length_0_conv length_sort)
    have all: "\<forall>r \<in> set xs. f ?w \<le> f r"
    proof
      fix r assume "r \<in> set xs"
      then have "r \<in> set pre \<or> r = ?w \<or> r \<in> set post"
        by (subst (asm) xs) auto
      with pre post show "f ?w \<le> f r"
        by auto
    qed
    have h: "hd (sort_key f (x # xs)) = (if f x \<le> f ?w then x else ?w)"
      using ne by (simp add: hd_insort_key)
    show ?thesis
    proof (cases "f x \<le> f ?w")
      case True
      with h have hx: "hd (sort_key f (x # xs)) = x" by simp
      have "x # xs = [] @ x # xs" by simp
      moreover have "\<forall>r \<in> set []. f x < f r" by simp
      moreover have "\<forall>r \<in> set xs. f x \<le> f r" using all True by auto
      ultimately show ?thesis unfolding hx by blast
    next
      case False
      with h have hw: "hd (sort_key f (x # xs)) = ?w" by simp
      have "x # xs = (x # pre) @ ?w # post" using xs by simp
      moreover have "\<forall>r \<in> set (x # pre). f ?w < f r" using pre False by auto
      ultimately show ?thesis unfolding hw using post by blast
    qed
  qed
qed

lemma intent_mismatch_pages:
  assumes "intent_mismatch K q qi w cs = Some i"
  shows "hd (pages i) = row_page_class w \<and> 2 \<le> length (pages i) \<and> length (pages i) \<le> 3
         \<and> conflict_type i = ''INTENT_MISMATCH''
         \<and> (case metadata i of None \<Rightarrow> None | Some md \<Rightarrow> md_query md) = Some q"
proof -
  let ?better = "filter (\<lambda>pc. classified_type pc \<in> set [''category_woo'', ''category_shop'',
                                     ''category_custom'', ''service_hub'', ''service_spoke'', ''product'']
                                   \<and> has_query_overlap K q pc) cs"
  from assms have ne: "?better \<noteq> []"
    by (auto simp: intent_mismatch_def Let_def split: if_splits)
  then have "1 \<le> length ?better"
    by (cases ?better) auto
  then have len: "1 \<le> length (take 2 ?better)"
    by simp
  from assms ne have "i = wrong_winner_issue ''INTENT_MISMATCH'' ''MEDIUM''
                         (row_page_class w # take 2 ?better)
                         (no_metadata\<lparr>md_query := Some q,
                                  md_query_intent := Some qi,
                                  md_winner_type := Some (classified_type (row_page_class w)),
                                  md_expected_type := Some ''category or service'',
                                  md_impressions := Some (row_impressions w),
                                  md_clicks := Some (row_clicks w)\<rparr>)"
    by (auto simp: intent_mismatch_def Let_def split: if_splits)
  with len show ?thesis
    by (simp add: wrong_winner_issue_def)
qed

lemma page_type_mismatch_pages:
  assumes "page_type_mismatch K q pl w cs = Some i"
  shows "hd (pages i) = row_page_class w \<and> length (pages i) = 2
         \<and> conflict_type i = ''PAGE_TYPE_MISMATCH''
         \<and> (case metadata i of None \<Rightarrow> None | Some md \<Rightarrow> md_query md) = Some q"
proof -
  let ?cat = "filter (\<lambda>pc. classified_type pc \<in> set [''category_woo'', ''category_shop'',
                                     ''category_custom'']
                                   \<and> has_query_overlap K q pc) cs"
  from assms have ne: "?cat \<noteq> []"
    by (auto simp: page_type_mismatch_def Let_def split: if_splits)
  then have len: "length (take 1 ?cat) = 1"
    by (cases ?cat) auto
  from assms ne have "i = wrong_winner_issue ''PAGE_TYPE_MISMATCH'' ''MEDIUM''
                         (row_page_class w # take 1 ?cat)
                         (no_metadata\<lparr>md_query := Some q,
                                  md_winner_type := Some ''product'',
                                  md_expected_type := Some ''category'',
                                  md_impressions := Some (row_impressions w),
                                  md_clicks := Some (row_clicks w)\<rparr>)"
    by (auto simp: page_type_mismatch_def Let_def split: if_splits)
  with len show ?thesis
    by (simp add: wrong_winner_issue_def)
qed

lemma homepage_hoarding_pages:
  assumes "homepage_hoarding K q w cs = Some i"
  shows "hd (pages i) = row_page_class w \<and> 2 \<le> length (pages i) \<and> length (pages i) \<le> 3
         \<and> conflict_type i = ''HOMEPAGE_HOARDING''
         \<and> (case metadata i of None \<Rightarrow> None | Some md \<Rightarrow> md_query md) = Some q"
proof -
  let ?spec = "filter (\<lambda>pc. classified_type pc \<in> set [''service_hub'', ''service_spoke'',
                                     ''product'', ''category_woo'', ''category_shop'']
                                   \<and> has_query_overlap K q pc) cs"
  from assms have ne: "?spec \<noteq> []"
    by (auto simp: homepage_hoarding_def Let_def split: if_splits)
  then have "1 \<le> length ?spec"
    by (cases ?spec) auto
  then have len: "1 \<le> length (take 2 ?spec)"
    by simp
  from assms ne have "i = wrong_winner_issue ''HOMEPAGE_HOARDING'' ''MEDIUM''
                         (row_page_class w # take 2 ?spec)
                         (no_metadata\<lparr>md_query := Some q,
                                  md_winner_type := Some ''homepage'',
                                  md_expected_type := Some (classified_type (hd ?spec)),
                                  md_impressions := Some (row_impressions w),
                                  md_clicks := Some (row_clicks w)\<rparr>)"
    by (auto simp: homepage_hoarding_def Let_def split: if_splits)
  with len show ?thesis
    by (simp add: wrong_winner_issue_def)
qed

lemma geographic_mismatch_pages:
  assumes "geographic_mismatch q hl w cs = Some i"
  shows "hd (pages i) = row_page_class w \<and> length (pages i) = 2
         \<and> conflict_type i = ''GEOGRAPHIC_MISMATCH''
         \<and> (case metadata i of None \<Rightarrow> None | Some md \<Rightarrow> md_query md) = Some q"
  using assms
  by (auto simp: geographic_mismatch_def Let_def wrong_winner_issue_def
           split: if_splits option.splits)

lemma detect_wrong_winner_pages:
  assumes "detect_wrong_winner K q w rows cs = Some i"
  shows "hd (pages i) = row_page_class w \<and> 2 \<le> length (pages i) \<and> length (pages i) \<le> 3
         \<and> (conflict_type i = ''PAGE_TYPE_MISMATCH'' \<or> conflict_type i = ''GEOGRAPHIC_MISMATCH''
              \<longrightarrow> length (pages i) = 2)
         \<and> (case metadata i of None \<Rightarrow> None | Some md \<Rightarrow> md_query md) = Some q"
proof -
  let ?qi = "fst (classify_query_intent K q)"
  let ?hl = "snd (classify_query_intent K q)"
  from assms consider
      (intent) "intent_mismatch K q ?qi w cs = Some i"
    | (ptype) "page_type_mismatch K q (is_plural_query q) w cs = Some i"
    | (home) "homepage_hoarding K q w cs = Some i"
    | (geo) "geographic_mismatch q ?hl w cs = Some i"
    by (auto simp: detect_wrong_winner_def Let_def split: option.splits)
  then show ?thesis
  proof cases
    case intent
    from intent_mismatch_pages [OF intent] show ?thesis by simp
  next
    case ptype
    from page_type_mismatch_pages [OF ptype] show ?thesis by simp
  next
    case home
    from homepage_hoarding_pages [OF home] show ?thesis by simp
  next
    case geo
    from geographic_mismatch_pages [OF geo] show ?thesis by simp
  qed
qed

text \<open>
  C10. Every issue that \<open>run_phase5\<close> returns belongs to one query group. Its first page
  is the page of the winner of that group, the first of the rows of the group with the
  most impressions: every row before it has strictly fewer impressions and no row after it
  has more. The issue has two or three pages, and exactly two when it is a
  \<open>PAGE_TYPE_MISMATCH\<close> or a \<open>GEOGRAPHIC_MISMATCH\<close>. Its metadata name the query of
  the group.
\<close>

theorem wrong_winner_pages:
  "\<forall>i \<in> set (run_phase5 hostchk K classifications gsc_data brand_name homepage_title).
     \<exists>entry \<in> set (query_groups hostchk K classifications brand_name homepage_title gsc_data).
       \<exists>pre w post.
         snd entry = pre @ w # post
         \<and> (\<forall>r \<in> set pre. row_impressions r < row_impressions w)
         \<and> (\<forall>r \<in> set post. row_impressions r \<le> row_impressions w)
         \<and> hd (pages i) = row_page_class w
         \<and> 2 \<le> length (pages i) \<and> length (pages i) \<le> 3
         \<and> (conflict_type i = ''PAGE_TYPE_MISMATCH'' \<or> conflict_type i = ''GEOGRAPHIC_MISMATCH''
              \<longrightarrow> length (pages i) = 2)
         \<and> (case metadata i of None \<Rightarrow> None | Some md \<Rightarrow> md_query md) = Some (fst entry)"
proof
  fix i assume "i \<in> set (run_phase5 hostchk K classifications gsc_data brand_name homepage_title)"
  then obtain entry where
    entry: "entry \<in> set (query_groups hostchk K classifications brand_name homepage_title gsc_data)"
    and i: "analyze_query K classifications entry = Some i"
    by (auto simp: run_phase5_def dest: in_map_filter split: if_splits)
  let ?rows = "sort_key (\<lambda>r. - row_impressions r) (snd entry)"
  let ?w = "hd ?rows"
  from entry query_groups_nonempty have ne: "snd entry \<noteq> []"
    unfolding query_groups_def by blast
  from hd_sort_key_first_least [OF ne, of "\<lambda>r. - row_impressions r"]
  obtain pre post where
    split: "snd entry = pre @ ?w # post" and
    pre: "\<forall>r \<in> set pre. row_impressions r < row_impressions ?w" and
    post: "\<forall>r \<in> set post. row_impressions r \<le> row_impressions ?w"
    by auto
  from i have "detect_wrong_winner K (fst entry) ?w ?rows classifications = Some i"
    by (simp add: analyze_query_def Let_def)
  from detect_wrong_winner_pages [OF this] split pre post
  have "\<exists>pre w post.
         snd entry = pre @ w # post
         \<and> (\<forall>r \<in> set pre. row_impressions r < row_impressions w)
         \<and> (\<forall>r \<in> set post. row_impressions r \<le> row_impressions w)
         \<and> hd (pages i) = row_page_class w
         \<and> 2 \<le> length (pages i) \<and> length (pages i) \<le> 3
         \<and> (conflict_type i = ''PAGE_TYPE_MISMATCH'' \<or> conflict_type i = ''GEOGRAPHIC_MISMATCH''
              \<longrightarrow> length (pages i) = 2)
         \<and> (case metadata i of None \<Rightarrow> None | Some md \<Rightarrow> md_query md) = Some (fst entry)"
    by blast
  with entry show "\<exists>entry \<in> set (query_groups hostchk K classifications brand_name homepage_title gsc_data).
       \<exists>pre w post.
         snd entry = pre @ w # post
         \<and> (\<forall>r \<in> set pre. row_impressions r < row_impressions w)
         \<and> (\<forall>r \<in> set post. row_impressions r \<le> row_impressions w)
         \<and> hd (pages i) = row_page_class w
         \<and> 2 \<le> length (pages i) \<and> length (pages i) \<le> 3
         \<and> (conflict_type i = ''PAGE_TYPE_MISMATCH'' \<or> conflict_type i = ''GEOGRAPHIC_MISMATCH''
              \<longrightarrow> length (pages i) = 2)
         \<and> (case metadata i of None \<Rightarrow> None | Some md \<Rightarrow> md_query md) = Some (fst entry)"
    by blast
qed

theorem wrong_winner_pages_witness:
  "map conflict_type
     (run_phase5 (\<lambda>h. True) example_constants [jazz_shoe_page, dance_shoes_page]
        dance_shoes_rows None None)
   = [''PAGE_TYPE_MISMATCH'']
   \<and> map (map page_id \<circ> pages)
       (run_phase5 (\<lambda>h. True) example_constants [jazz_shoe_page, dance_shoes_page]
          dance_shoes_rows None None)
     = [[1, 2]]
   \<and> map (map (\<lambda>r. (page_id (row_page_class r), row_impressions r)) \<circ> snd)
       (query_groups (\<lambda>h. True) example_constants [jazz_shoe_page, dance_shoes_page]
          None None dance_shoes_rows)
     = [[(2, 100), (1, 500)]]
   \<and> length (pages (hd (run_phase5 (\<lambda>h. True) example_constants
                           [jazz_shoe_page, dance_shoes_page] dance_shoes_rows None None)))
     = 2"
proof -
  let ?out = "run_phase5 (\<lambda>h. True) example_constants [jazz_shoe_page, dance_shoes_page]
                dance_shoes_rows None None"
  have c: "map conflict_type ?out = [''PAGE_TYPE_MISMATCH'']"
    by code_simp
  have p: "map (map page_id \<circ> pages) ?out = [[1, 2]]"
    by code_simp
  have g: "map (map (\<lambda>r. (page_id (row_page_class r), row_impressions r)) \<circ> snd)
             (query_groups (\<lambda>h. True) example_constants [jazz_shoe_page, dance_shoes_page]
                None None dance_shoes_rows)
           = [[(2, 100), (1, 500)]]"
    by code_simp
  from c have mem: "hd ?out \<in> set ?out" and ct: "conflict_type (hd ?out) = ''PAGE_TYPE_MISMATCH''"
    by (cases ?out; auto)+
  from wrong_winner_pages [of "\<lambda>h. True" example_constants "[jazz_shoe_page, dance_shoes_page]"
         dance_shoes_rows None None] mem ct
  have "length (pages (hd ?out)) = 2"
    by blast
  with c p g show ?thesis
    by simp
qed

subsection \<open>URL normalization\<close>

lemma lower_char_idem: "lower_char (lower_char c) = lower_char c"
  by (auto simp: lower_char_def code_def Let_def)

lemma py_lower_idem: "py_lower (py_lower s) = py_lower s"
  by (simp add: py_lower_def lower_char_idem)

lemma py_lower_fixed: "set s \<subseteq> set (py_lower t) \<Longrightarrow> py_lower s = s"
  unfolding py_lower_def
  by (rule map_idI) (auto simp: lower_char_idem)

lemma set_lstrip_where: "set (lstrip_where P s) \<subseteq> set s"
  by (auto simp: lstrip_where_def dest: set_dropWhileD)

lemma set_rstrip_where: "set (rstrip_where P s) \<subseteq> set s"
  by (auto simp: rstrip_where_def dest: set_dropWhileD)

lemma set_py_strip: "set (py_strip s) \<subseteq> set s"
  using set_lstrip_where set_rstrip_where
  by (fastforce simp: py_strip_def strip_where_def)

lemma set_replace_del: "set (replace_del pat s) \<subseteq> set s"
proof (induction pat s rule: replace_del.induct)
  case (1 pat)
  then show ?case by simp
next
  case (2 pat c cs)
  show ?case
  proof (cases "pat \<noteq> [] \<and> prefix pat (c # cs)")
    case True
    with 2(1) have "set (replace_del pat (c # cs)) \<subseteq> set (drop (length pat) (c # cs))"
      by simp
    then show ?thesis
      using set_drop_subset [of "length pat" "c # cs"] by blast
  next
    case False
    with 2(2) show ?thesis by auto
  qed
qed

lemma rstrip_where_fixed: "xs = [] \<or> \<not> P (last xs) \<Longrightarrow> rstrip_where P xs = xs"
  by (cases xs rule: rev_cases) (auto simp: rstrip_where_def)

lemma rstrip_where_last: "rstrip_where P xs \<noteq> [] \<Longrightarrow> \<not> P (last (rstrip_where P xs))"
  unfolding rstrip_where_def
  by (metis hd_dropWhile last_rev rev_is_Nil_conv)

lemma lstrip_where_fixed: "xs = [] \<or> \<not> P (hd xs) \<Longrightarrow> lstrip_where P xs = xs"
  by (cases xs) (auto simp: lstrip_where_def)

lemma split_first_fst: "set (fst (split_first c s)) \<subseteq> set s \<and> c \<notin> set (fst (split_first c s))"
proof (cases "c \<in> set s")
  case True
  have "c \<notin> set (takeWhile (\<lambda>x. x \<noteq> c) s)"
    by (auto dest: set_takeWhileD)
  with True show ?thesis
    by (auto simp: split_first_def dest: set_takeWhileD)
next
  case False
  then show ?thesis by (simp add: split_first_def)
qed

lemma split_scheme_snd: "set (snd (split_scheme s)) \<subseteq> set s"
proof -
  have "set (tl ys) \<subseteq> set ys" for ys :: string
    by (cases ys) auto
  then have "set (tl (dropWhile (\<lambda>c. c \<noteq> CHR '':'') s)) \<subseteq> set s"
    using set_dropWhileD by fastforce
  then show ?thesis
    by (auto simp: split_scheme_def Let_def)
qed

lemma splitnetloc_sets:
  "set (fst (splitnetloc s)) \<subseteq> set s \<and> set (snd (splitnetloc s)) \<subseteq> set s
   \<and> (\<forall>c \<in> set (fst (splitnetloc s)). \<not> netloc_delim c)"
  by (auto simp: splitnetloc_def dest: set_takeWhileD set_dropWhileD in_set_dropD)

lemma splitparams_fst: "set (fst (splitparams s)) \<subseteq> set s"
  by (auto simp: splitparams_def Let_def dest: set_takeWhileD in_set_takeD in_set_dropD)

lemma urlsplit_parts:
  assumes "urlsplit hostchk s = Inr r"
  shows "set (netloc r) \<subseteq> set s \<and> set (path r) \<subseteq> set s
         \<and> (\<forall>c \<in> set (netloc r). \<not> netloc_delim c)
         \<and> CHR ''#'' \<notin> set (path r) \<and> CHR ''?'' \<notin> set (path r)"
proof -
  let ?url2 = "filter (\<lambda>c. \<not> unsafe_byte c) (lstrip_where c0_or_space s)"
  let ?url3 = "snd (split_scheme ?url2)"
  let ?nl = "if take 2 ?url3 = ''//'' then fst (splitnetloc ?url3) else ''''"
  let ?url4 = "if take 2 ?url3 = ''//'' then snd (splitnetloc ?url3) else ?url3"
  let ?url5 = "fst (split_first CHR ''#'' ?url4)"
  let ?url6 = "fst (split_first CHR ''?'' ?url5)"
  from assms have nl: "netloc r = ?nl" and p: "path r = ?url6"
    by (auto simp: urlsplit_def Let_def split_beta split: if_splits)
  have s2: "set ?url2 \<subseteq> set s"
    using set_lstrip_where [of c0_or_space s] by auto
  have s3: "set ?url3 \<subseteq> set s"
    using split_scheme_snd [of ?url2] s2 by blast
  have s4: "set ?url4 \<subseteq> set s"
    using splitnetloc_sets [of ?url3] s3 by auto
  have snl: "set ?nl \<subseteq> set s"
    using splitnetloc_sets [of ?url3] s3 by auto
  have dnl: "\<forall>c \<in> set ?nl. \<not> netloc_delim c"
    using splitnetloc_sets [of ?url3] by auto
  have s5: "set ?url5 \<subseteq> set s" and h5: "CHR ''#'' \<notin> set ?url5"
    using split_first_fst [of "CHR ''#''" ?url4] s4 by blast+
  have s6: "set ?url6 \<subseteq> set ?url5" and q6: "CHR ''?'' \<notin> set ?url6"
    using split_first_fst [of "CHR ''?''" ?url5] by blast+
  from s6 s5 h5 have "set ?url6 \<subseteq> set s" "CHR ''#'' \<notin> set ?url6"
    by blast+
  with q6 snl dnl show ?thesis
    unfolding nl p by blast
qed

lemma urlparse_parts:
  assumes "urlparse hostchk s = Inr r"
  shows "set (netloc r) \<subseteq> set s \<and> set (path r) \<subseteq> set s
         \<and> (\<forall>c \<in> set (netloc r). \<not> netloc_delim c)
         \<and> CHR ''#'' \<notin> set (path r) \<and> CHR ''?'' \<notin> set (path r)"
proof -
  from assms obtain r0 where r0: "urlsplit hostchk s = Inr r0"
    by (auto simp: urlparse_def split: sum.splits)
  from assms r0 have nl: "netloc r = netloc r0"
    by (auto simp: urlparse_def Let_def split_beta split: if_splits)
  from assms r0 have "path r = path r0 \<or> path r = fst (splitparams (path r0))"
    by (auto simp: urlparse_def Let_def split_beta split: if_splits)
  then have p: "set (path r) \<subseteq> set (path r0)"
    using splitparams_fst [of "path r0"] by auto
  from urlsplit_parts [OF r0] nl p show ?thesis
    by auto
qed

lemma urlsplit_plain:
  assumes "lstrip_where c0_or_space n = n" and "\<forall>c \<in> set n. \<not> unsafe_byte c"
    and "fst (split_scheme n) = ''''" and "take 2 n \<noteq> ''//''"
  shows "urlsplit hostchk n =
           Inr \<lparr>scheme = '''', netloc = '''', path = fst (split_first CHR ''?'' (fst (split_first CHR ''#'' n))),
                params = '''',
                query = snd (split_first CHR ''?'' (fst (split_first CHR ''#'' n))),
                fragment = snd (split_first CHR ''#'' n)\<rparr>"
proof -
  from assms(2) have f: "filter (\<lambda>c. \<not> unsafe_byte c) n = n"
    by simp
  from assms(3) have sc: "split_scheme n = ('''', n)"
    by (auto simp: split_scheme_def Let_def py_lower_def split: if_splits)
  show ?thesis
    using assms(4) by (simp add: urlsplit_def Let_def split_beta assms(1) f sc)
qed

lemma splitparams_plain:
  assumes "CHR '';'' \<notin> set (takeWhile (\<lambda>c. c \<noteq> CHR ''/'') (rev n))"
    and "CHR '';'' \<in> set n"
  shows "fst (splitparams n) = n"
proof (cases "CHR ''/'' \<in> set n")
  case True
  define tw where "tw = takeWhile (\<lambda>c. c \<noteq> CHR ''/'') (rev n)"
  define dw where "dw = dropWhile (\<lambda>c. c \<noteq> CHR ''/'') (rev n)"
  from True have "dw \<noteq> []"
    unfolding dw_def by (simp add: dropWhile_eq_Nil_conv)
  moreover from this have "hd dw = CHR ''/''"
    unfolding dw_def using hd_dropWhile [of "\<lambda>c. c \<noteq> CHR ''/''" "rev n"] by simp
  ultimately obtain rest where dw: "dw = CHR ''/'' # rest"
    by (cases dw) auto
  have "rev n = tw @ dw"
    unfolding tw_def dw_def by simp
  then have "rev (rev n) = rev (tw @ dw)"
    by simp
  then have n: "n = rev rest @ CHR ''/'' # rev tw"
    unfolding dw by simp
  have k: "length n - Suc (length tw) = length (rev rest)"
    by (subst n) simp
  have "drop (length (rev rest)) n = CHR ''/'' # rev tw"
    by (subst n) simp
  then have seg: "drop (length n - Suc (length tw)) n = CHR ''/'' # rev tw"
    unfolding k .
  from assms(1) have "CHR '';'' \<notin> set (CHR ''/'' # rev tw)"
    unfolding tw_def by simp
  with True seg show ?thesis
    unfolding splitparams_def Let_def tw_def by simp
next
  case False
  then have "takeWhile (\<lambda>c. c \<noteq> CHR ''/'') (rev n) = rev n"
    by (auto simp: takeWhile_eq_all_conv)
  with assms show ?thesis
    by simp
qed

lemma normalize_full_url_plain:
  assumes "py_lower n = n" and "py_strip n = n"
    and "lstrip_where c0_or_space n = n" and "\<forall>c \<in> set n. \<not> unsafe_byte c"
    and "fst (split_scheme n) = ''''" and "take 2 n \<noteq> ''//''"
    and "CHR ''#'' \<notin> set n" and "CHR ''?'' \<notin> set n"
    and "CHR '';'' \<notin> set (takeWhile (\<lambda>c. c \<noteq> CHR ''/'') (rev n))"
    and "rstrip_char CHR ''/'' n = n"
  shows "normalize_full_url hostchk n = n"
proof (cases "n = []")
  case True
  then show ?thesis by (simp add: normalize_full_url_def)
next
  case False
  have sp: "urlsplit hostchk n =
              Inr \<lparr>scheme = '''', netloc = '''', path = n, params = '''', query = '''', fragment = ''''\<rparr>"
    using urlsplit_plain [OF assms(3) assms(4) assms(5) assms(6), of hostchk] assms(7) assms(8)
    by (simp add: split_first_def)
  have "\<exists>ps. urlparse hostchk n =
              Inr \<lparr>scheme = '''', netloc = '''', path = n, params = ps, query = '''', fragment = ''''\<rparr>"
  proof (cases "CHR '';'' \<in> set n")
    case True
    from splitparams_plain [OF assms(9) True] show ?thesis
      unfolding urlparse_def sp using True
      by (simp add: uses_params_def split_beta Let_def)
  next
    case False
    then show ?thesis
      unfolding urlparse_def sp by simp
  qed
  then obtain ps where up: "urlparse hostchk n =
      Inr \<lparr>scheme = '''', netloc = '''', path = n, params = ps, query = '''', fragment = ''''\<rparr>"
    by blast
  from False show ?thesis
    unfolding normalize_full_url_def assms(1) assms(2) up
    by (simp add: assms(10))
qed

lemma urlparse_plain_returns:
  assumes "lstrip_where c0_or_space n = n" and "\<forall>c \<in> set n. \<not> unsafe_byte c"
    and "fst (split_scheme n) = ''''" and "take 2 n \<noteq> ''//''"
  shows "urlparse hostchk n \<noteq> Inl e"
  unfolding urlparse_def urlsplit_plain [OF assms, of hostchk]
  by (simp add: Let_def split_beta)

lemma rstrip_slash_joined:
  assumes "CHR ''/'' \<notin> set d"
  shows "rstrip_char CHR ''/'' (d @ rstrip_char CHR ''/'' p) = d @ rstrip_char CHR ''/'' p"
proof (cases "rstrip_char CHR ''/'' p = []")
  case True
  have "d = [] \<or> last d \<noteq> CHR ''/''"
    using assms last_in_set by metis
  then have "rstrip_char CHR ''/'' d = d"
    unfolding rstrip_char_def by (rule rstrip_where_fixed)
  then show ?thesis
    by (simp add: True)
next
  case False
  then have "last (rstrip_char CHR ''/'' p) \<noteq> CHR ''/''"
    unfolding rstrip_char_def using rstrip_where_last [of "\<lambda>x. x = CHR ''/''" p] by simp
  with False have "last (d @ rstrip_char CHR ''/'' p) \<noteq> CHR ''/''"
    by simp
  then show ?thesis
    using rstrip_where_fixed [of "d @ rstrip_char CHR ''/'' p" "\<lambda>x. x = CHR ''/''"]
    unfolding rstrip_char_def by simp
qed

text \<open>
  C1, as the code has it. Let \<open>n\<close> be the normalized form of a URL \<open>u\<close>. Normalizing
  \<open>n\<close> again gives \<open>n\<close> whenever \<open>n\<close> has no whitespace at either end and no leading
  control character, contains no tab, carriage return or line feed, does not begin with a
  URL scheme (a letter, then letters, digits, \<open>+\<close>, \<open>-\<close> or \<open>.\<close>, up to a colon), does
  not begin with \<open>//\<close>, and has no semicolon after its last slash. These are the strings
  that \<open>urlparse\<close> reads as a bare path.
\<close>

theorem normalize_full_url_idempotent_on_plain:
  assumes n: "n = normalize_full_url hostchk u"
    and strip: "py_strip n = n"
    and lstrip: "lstrip_where c0_or_space n = n"
    and safe: "\<forall>c \<in> set n. \<not> unsafe_byte c"
    and noscheme: "fst (split_scheme n) = ''''"
    and noslashes: "take 2 n \<noteq> ''//''"
    and noparams: "CHR '';'' \<notin> set (takeWhile (\<lambda>c. c \<noteq> CHR ''/'') (rev n))"
  shows "normalize_full_url hostchk n = n"
proof (cases "u = []")
  case True
  with n show ?thesis by (simp add: normalize_full_url_def)
next
  case False
  let ?s = "py_strip (py_lower u)"
  have ss: "set ?s \<subseteq> set (py_lower u)"
    by (rule set_py_strip)
  show ?thesis
  proof (cases "urlparse hostchk ?s")
    case (Inl e)
    with n False have ns: "n = ?s"
      by (simp add: normalize_full_url_def)
    from urlparse_plain_returns [OF lstrip safe noscheme noslashes, of hostchk e] Inl
    show ?thesis
      unfolding ns by simp
  next
    case (Inr parsed)
    let ?d = "replace_del ''www.'' (netloc parsed)"
    let ?p = "rstrip_char CHR ''/'' (path parsed)"
    from n False Inr have np: "n = ?d @ ?p"
      by (simp add: normalize_full_url_def Let_def)
    note parts = urlparse_parts [OF Inr]
    have d: "set ?d \<subseteq> set (netloc parsed)"
      by (rule set_replace_del)
    have p: "set ?p \<subseteq> set (path parsed)"
      unfolding rstrip_char_def by (rule set_rstrip_where)
    from d parts have dd: "\<forall>c \<in> set ?d. \<not> netloc_delim c"
      by blast
    then have dslash: "CHR ''/'' \<notin> set ?d" and dhash: "CHR ''#'' \<notin> set ?d"
      and dq: "CHR ''?'' \<notin> set ?d"
      by (auto simp: netloc_delim_def)
    from p parts have phash: "CHR ''#'' \<notin> set ?p" and pq: "CHR ''?'' \<notin> set ?p"
      by blast+
    from d p parts ss have "set n \<subseteq> set (py_lower u)"
      unfolding np by auto
    then have lower: "py_lower n = n"
      by (rule py_lower_fixed)
    have hash: "CHR ''#'' \<notin> set n" and q: "CHR ''?'' \<notin> set n"
      unfolding np using dhash dq phash pq by auto
    have r: "rstrip_char CHR ''/'' n = n"
      unfolding np using dslash by (rule rstrip_slash_joined)
    from lower strip lstrip safe noscheme noslashes hash q noparams r
    show ?thesis
      by (rule normalize_full_url_plain)
  qed
qed

theorem normalize_full_url_idempotent_on_plain_witness:
  "normalize_full_url (\<lambda>h. True) ''https://www.Example.com/Page/?utm=123#section''
     = ''example.com/page''
   \<and> normalize_full_url (\<lambda>h. True) ''example.com/page'' = ''example.com/page''"
proof -
  have v: "''example.com/page''
           = normalize_full_url (\<lambda>h. True) ''https://www.Example.com/Page/?utm=123#section''"
    by code_simp
  have h1: "py_strip ''example.com/page'' = ''example.com/page''"
    by code_simp
  have h2: "lstrip_where c0_or_space ''example.com/page'' = ''example.com/page''"
    by code_simp
  have h3: "\<forall>c \<in> set ''example.com/page''. \<not> unsafe_byte c"
    by code_simp
  have h4: "fst (split_scheme ''example.com/page'') = []"
    by code_simp
  have h5: "take 2 ''example.com/page'' \<noteq> ''//''"
    by simp
  have h6: "CHR '';'' \<notin> set (takeWhile (\<lambda>c. c \<noteq> CHR ''/'') (rev ''example.com/page''))"
    by code_simp
  from normalize_full_url_idempotent_on_plain [OF v h1 h2 h3 h4 h5 h6] v show ?thesis
    by simp
qed

text \<open>
  C1 as stated fails. A port leaves a normalized form that \<open>urlparse\<close> reads as a URL
  with the scheme \<open>host\<close>: \<open>http://host:80/path\<close> becomes \<open>host:80/path\<close>, and that
  becomes \<open>80/path\<close>. A space before the trailing slash is stripped only at the second
  application: \<open>http://a/b /\<close> becomes \<open>a/b\<close> followed by a space, and that becomes
  \<open>a/b\<close>.
\<close>

theorem normalize_full_url_not_idempotent:
  "normalize_full_url (\<lambda>h. True) ''http://host:80/path'' = ''host:80/path''
   \<and> normalize_full_url (\<lambda>h. True) ''host:80/path'' = ''80/path''
   \<and> normalize_full_url (\<lambda>h. True) ''http://a/b /'' = ''a/b ''
   \<and> normalize_full_url (\<lambda>h. True) ''a/b '' = ''a/b''"
proof -
  have a: "normalize_full_url (\<lambda>h. True) ''http://host:80/path'' = ''host:80/path''"
    by code_simp
  have b: "normalize_full_url (\<lambda>h. True) ''host:80/path'' = ''80/path''"
    by code_simp
  have c: "normalize_full_url (\<lambda>h. True) ''http://a/b /'' = ''a/b ''"
    by code_simp
  have d: "normalize_full_url (\<lambda>h. True) ''a/b '' = ''a/b''"
    by code_simp
  from a b c d show ?thesis
    by simp
qed

subsection \<open>The run when the traffic source raises\<close>

lemma gsc_phases_without_traffic:
  assumes "env_traffic env = Fetch_raised msg"
  shows "gsc_phases hostchk K env include_gsc gsc_days classifications static0 r0
         = Inr \<lparr>static_issues = static0, gsc_issues = [], wrong_winner_issues = [],
                issues_run = r0\<rparr>"
  using assms by (simp add: gsc_phases_def fetch_gsc_data_def Let_def)

lemma gsc_phases_gsc_connected:
  assumes "gsc_phases hostchk K env include_gsc gsc_days classifications static0 r0 = Inr found"
  shows "run_gsc_connected (issues_run found) = run_gsc_connected r0"
  using assms
  by (auto simp: gsc_phases_def Let_def split: if_splits sum.splits)

lemma run_phases_returned:
  assumes "run_phases hostchk K legacy_sfx env include_gsc gsc_days r0 = Inr r"
  shows "run_gsc_connected r = run_gsc_connected r0"
  using assms
  by (auto simp: run_phases_def Let_def mark_failed_def mark_completed_def save_counts_def
           dest: gsc_phases_gsc_connected split: if_splits sum.splits)

lemma run_phases_raised:
  assumes "run_phases hostchk K legacy_sfx env include_gsc gsc_days r0 = Inl (e, r)"
  shows "run_gsc_connected r = run_gsc_connected r0"
  using assms
  by (auto simp: run_phases_def Let_def mark_failed_def mark_completed_def save_counts_def
           dest: gsc_phases_gsc_connected split: if_splits sum.splits)

lemma run_analysis_gsc_connected:
  assumes "outcome_run (run_analysis hostchk K legacy_sfx env include_gsc gsc_days) = Some r"
  shows "run_gsc_connected r = include_gsc"
proof (cases "run_phases hostchk K legacy_sfx env include_gsc gsc_days (create_run include_gsc)")
  case (Inl er)
  obtain e r' where er: "er = (e, r')" by (cases er)
  from Inl er have "run_gsc_connected r' = run_gsc_connected (create_run include_gsc)"
    using run_phases_raised by blast
  then have "run_gsc_connected r' = include_gsc"
    by (simp add: create_run_def)
  with assms Inl er show ?thesis
    by (auto simp: run_analysis_def outcome_run_def mark_failed_def split: if_splits)
next
  case (Inr r')
  then have "run_gsc_connected r' = run_gsc_connected (create_run include_gsc)"
    by (rule run_phases_returned)
  then have "run_gsc_connected r' = include_gsc"
    by (simp add: create_run_def)
  with assms Inr show ?thesis
    by (auto simp: run_analysis_def outcome_run_def split: if_splits)
qed

text \<open>
  C5 does not hold of the code. \<open>run_analysis\<close> creates the run with
  \<open>gsc_connected = include_gsc\<close> and never writes the field again. For a site of two
  pages whose traffic source raises, with GSC enabled, the exception is caught in
  \<open>_fetch_gsc_data\<close>, phases 4 and 5 are skipped and find no issue, and the run is
  returned with status \<open>completed\<close>, but with \<open>gsc_connected\<close> still true.
\<close>

theorem failing_traffic_leaves_gsc_connected:
  "env_traffic failing_traffic_env = Fetch_raised ''quota exceeded''
   \<and> map_option run_status
       (outcome_run (run_analysis (\<lambda>h. True) example_constants LEGACY_SUFFIXES
                       failing_traffic_env True 90))
     = Some ''completed''
   \<and> map_option run_gsc_connected
       (outcome_run (run_analysis (\<lambda>h. True) example_constants LEGACY_SUFFIXES
                       failing_traffic_env True 90))
     = Some True
   \<and> gsc_phases (\<lambda>h. True) example_constants failing_traffic_env True 90
       [hub_page, spoke_page] [] (create_run True)
     = Inr \<lparr>static_issues = [], gsc_issues = [], wrong_winner_issues = [],
            issues_run = create_run True\<rparr>"
proof -
  have t: "env_traffic failing_traffic_env = Fetch_raised ''quota exceeded''"
    by (simp add: failing_traffic_env_def)
  have s: "map_option run_status
             (outcome_run (run_analysis (\<lambda>h. True) example_constants LEGACY_SUFFIXES
                             failing_traffic_env True 90))
           = Some ''completed''"
    by code_simp
  have g: "map_option run_gsc_connected
             (outcome_run (run_analysis (\<lambda>h. True) example_constants LEGACY_SUFFIXES
                             failing_traffic_env True 90))
           = Some True"
    by code_simp
  from t s g gsc_phases_without_traffic [OF t] show ?thesis
    by simp
qed

end
